theory Spec2Isabelle
  imports Complex_Main "HOL-Library.Word"
begin

section \<open>Strand-state classification of binned single-cell counts: main.cpp\<close>

text \<open>
  The development follows \<^verbatim>\<open>src/main.cpp\<close> stage by stage: the header scan, the
  counting loop with its erasure of unreadable cells, the per-cell median, the bin
  filter, the good-bin chromosome index, the per-sample estimate of \<open>p\<close>, the set-up of
  the hidden Markov model, the per-cell decode and the count table.

  The headers \<^verbatim>\<open>intervals.hpp\<close>, \<^verbatim>\<open>counts.hpp\<close>, \<^verbatim>\<open>distribution.hpp\<close> and
  \<^verbatim>\<open>hmm.hpp\<close> are not part of the sources. What \<^verbatim>\<open>main\<close> calls from them is either a
  parameter of the model (record \<open>Env\<close>) or a definition marked
  \<open>Modelled from the spec\<close>.
\<close>

subsection \<open>Values of type float and double\<close>

text \<open>
  C++ \<^verbatim>\<open>float\<close> and \<^verbatim>\<open>double\<close> values are modelled as a real number or one of the three
  special values of IEEE 754 arithmetic. A division by zero is therefore visible in the
  model: it yields an infinity or a NaN, as on the machine, and a NaN makes every
  comparison false. Rounding is not modelled (a finite result is the exact real
  number) and the two zeros are identified (the zero is the positive one).
\<close>

datatype fval = Fin real | PInf | NInf | NaN

fun fv_neg :: "fval \<Rightarrow> fval" where
  "fv_neg (Fin a) = Fin (- a)"
| "fv_neg PInf = NInf"
| "fv_neg NInf = PInf"
| "fv_neg NaN = NaN"

fun fv_add :: "fval \<Rightarrow> fval \<Rightarrow> fval" where
  "fv_add (Fin a) (Fin b) = Fin (a + b)"
| "fv_add NaN y = NaN"
| "fv_add x NaN = NaN"
| "fv_add PInf NInf = NaN"
| "fv_add NInf PInf = NaN"
| "fv_add PInf y = PInf"
| "fv_add NInf y = NInf"
| "fv_add (Fin a) y = y"

definition fv_sub :: "fval \<Rightarrow> fval \<Rightarrow> fval" where
  "fv_sub x y = fv_add x (fv_neg y)"

fun fv_mul :: "fval \<Rightarrow> fval \<Rightarrow> fval" where
  "fv_mul (Fin a) (Fin b) = Fin (a * b)"
| "fv_mul NaN y = NaN"
| "fv_mul x NaN = NaN"
| "fv_mul (Fin a) y = (if a = 0 then NaN else if 0 < a then y else fv_neg y)"
| "fv_mul x (Fin b) = (if b = 0 then NaN else if 0 < b then x else fv_neg x)"
| "fv_mul x y = (if x = y then PInf else NInf)"

fun fv_div :: "fval \<Rightarrow> fval \<Rightarrow> fval" where
  "fv_div (Fin a) (Fin b) =
     (if b = 0 then (if a = 0 then NaN else if 0 < a then PInf else NInf)
      else Fin (a / b))"
| "fv_div NaN y = NaN"
| "fv_div x NaN = NaN"
| "fv_div (Fin a) y = Fin 0"
| "fv_div x (Fin b) = (if 0 \<le> b then x else fv_neg x)"
| "fv_div x y = NaN"

fun fv_sqrt :: "fval \<Rightarrow> fval" where
  "fv_sqrt (Fin a) = (if a < 0 then NaN else Fin (sqrt a))"
| "fv_sqrt PInf = PInf"
| "fv_sqrt NInf = NaN"
| "fv_sqrt NaN = NaN"

fun fv_less :: "fval \<Rightarrow> fval \<Rightarrow> bool" where
  "fv_less (Fin a) (Fin b) = (a < b)"
| "fv_less NaN y = False"
| "fv_less x NaN = False"
| "fv_less NInf y = (y \<noteq> NInf)"
| "fv_less x PInf = (x \<noteq> PInf)"
| "fv_less x y = False"

fun fv_le :: "fval \<Rightarrow> fval \<Rightarrow> bool" where
  "fv_le (Fin a) (Fin b) = (a \<le> b)"
| "fv_le NaN y = False"
| "fv_le x NaN = False"
| "fv_le NInf y = True"
| "fv_le x PInf = True"
| "fv_le x y = False"

definition fv_greater :: "fval \<Rightarrow> fval \<Rightarrow> bool" where
  "fv_greater x y = fv_less y x"

fun is_Fin :: "fval \<Rightarrow> bool" where
  "is_Fin (Fin a) = True"
| "is_Fin x = False"

text \<open>Conversion of an unsigned integer to float or double.\<close>

definition of_unsigned :: "nat \<Rightarrow> fval" where
  "of_unsigned n = Fin (real n)"

subsection \<open>The hidden Markov model object\<close>

text \<open>
  \<^verbatim>\<open>hmm::NegativeBinomial(p, n)\<close> and \<^verbatim>\<open>hmm::MultiVariate\<close> are constructor calls in
  \<^verbatim>\<open>main\<close>; a distribution is modelled by the arguments it is constructed from.
\<close>

datatype NegativeBinomial = NegativeBinomial fval fval

type_synonym MultiVariate = "NegativeBinomial list"

text \<open>
  Modelled from the spec: class \<^verbatim>\<open>hmm::HMM\<close> of \<^verbatim>\<open>hmm.hpp\<close> is missing. The model
  holds the state labels, the initial-state distribution, the 3 x 3 transition matrix
  (row by row, as \<^verbatim>\<open>main\<close> passes it) and one emission distribution per state; each
  setter stores its argument.
\<close>

record HMM =
  state_labels :: "string list"
  initials :: "fval list"
  transitions :: "fval list"
  emissions :: "MultiVariate list"

definition new_HMM :: "string list \<Rightarrow> HMM" where
  "new_HMM labels = \<lparr>state_labels = labels, initials = [], transitions = [], emissions = []\<rparr>"

definition set_initials :: "fval list \<Rightarrow> HMM \<Rightarrow> HMM" where
  "set_initials ini h = h\<lparr>initials := ini\<rparr>"

definition set_transitions :: "fval list \<Rightarrow> HMM \<Rightarrow> HMM" where
  "set_transitions tr h = h\<lparr>transitions := tr\<rparr>"

definition set_emissions :: "MultiVariate list \<Rightarrow> HMM \<Rightarrow> HMM" where
  "set_emissions em h = h\<lparr>emissions := em\<rparr>"

text \<open>
  Lines 388 to 395: the model is created with the labels CC, WC, WW, the initial
  distribution is three times 0.3333, and \<^verbatim>\<open>p_trans = 10.0f / bins.size()\<close>.
\<close>

definition p_trans :: "nat \<Rightarrow> fval" where
  "p_trans nbins = fv_div (Fin 10) (of_unsigned nbins)"

definition stay :: "nat \<Rightarrow> fval" where
  "stay nbins = fv_sub (Fin 1) (fv_mul (Fin 2) (p_trans nbins))"

definition setup_hmm :: "nat \<Rightarrow> HMM" where
  "setup_hmm nbins =
     set_transitions
       [stay nbins, p_trans nbins, p_trans nbins,
        p_trans nbins, stay nbins, p_trans nbins,
        p_trans nbins, p_trans nbins, stay nbins]
       (set_initials [Fin 0.3333, Fin 0.3333, Fin 0.3333]
          (new_HMM [''CC'', ''WC'', ''WW'']))"

text \<open>Entry and row of a matrix stored row by row, and the sum of a list of values.\<close>

definition entry :: "HMM \<Rightarrow> nat \<Rightarrow> nat \<Rightarrow> fval" where
  "entry h r c = transitions h ! (3 * r + c)"

definition fv_sum :: "fval list \<Rightarrow> fval" where
  "fv_sum xs = foldl fv_add (Fin 0) xs"

definition row_sum :: "HMM \<Rightarrow> nat \<Rightarrow> fval" where
  "row_sum h r = fv_sum [entry h r 0, entry h r 1, entry h r 2]"

subsection \<open>Bins, counters, cells and samples\<close>

text \<open>
  Modelled from the spec: the structs \<^verbatim>\<open>Interval\<close>, \<^verbatim>\<open>Counter\<close>, \<^verbatim>\<open>CellInfo\<close> and
  \<^verbatim>\<open>SampleInfo\<close> are declared in the missing headers; the fields are the ones
  \<^verbatim>\<open>main\<close> reads and writes. The two strand counts are unsigned 32-bit integers (the
  median accumulator of \<^verbatim>\<open>main\<close> takes their sum as \<^verbatim>\<open>unsigned int\<close>), so their sum wraps
  around. \<open>median_bin_count\<close> is an unsigned integer: \<^verbatim>\<open>main\<close> casts it to float and
  double before it divides, and \<^verbatim>\<open>median_by_sample\<close> stores the same median in a
  \<^verbatim>\<open>std::vector<unsigned>\<close>.
\<close>

record Interval =
  chr :: int
  start :: nat
  end' :: nat

record Counter =
  watson_count :: "32 word"
  crick_count :: "32 word"
  label :: string

type_synonym TGenomeCounts = "Counter list"

record CellInfo =
  id' :: nat
  sample_name :: string
  median_bin_count :: nat
  n_mapped :: nat
  n_supplementary :: nat
  n_pcr_dups :: nat
  n_low_mapq :: nat
  n_read2s :: nat
  n_counted :: nat

record SampleInfo =
  means :: "fval list"
  vars :: "fval list"
  p' :: fval

definition new_CellInfo :: CellInfo where
  "new_CellInfo = \<lparr>id' = 0, sample_name = [], median_bin_count = 0, n_mapped = 0,
     n_supplementary = 0, n_pcr_dups = 0, n_low_mapq = 0, n_read2s = 0, n_counted = 0\<rparr>"

definition new_SampleInfo :: SampleInfo where
  "new_SampleInfo = \<lparr>means = [], vars = [], p' = Fin 0\<rparr>"

subsection \<open>The accumulators\<close>

text \<open>
  Modelled from the spec: \<^verbatim>\<open>TMeanVarAccumulator\<close> is declared in a missing header.
  The spec calls its results the population mean and variance: the mean is the sum
  over the count, the variance the mean of the squares minus the square of the mean.
  With no sample the mean is 0/0.
\<close>

definition mean :: "fval list \<Rightarrow> fval" where
  "mean xs = fv_div (fv_sum xs) (of_unsigned (length xs))"

definition variance :: "fval list \<Rightarrow> fval" where
  "variance xs = fv_sub (mean (map (\<lambda>x. fv_mul x x) xs)) (fv_mul (mean xs) (mean xs))"

text \<open>
  Modelled from the spec: \<^verbatim>\<open>TMedianAccumulator\<close> is declared in a missing header.
  The spec calls its result the standard median of the finite multiset, averaging the
  two middle values for even-sized inputs. The spec gives no median of no value at all;
  the model returns 0 there.
\<close>

definition median :: "nat list \<Rightarrow> real" where
  "median xs =
     (let s = sort xs; n = length s
      in if n = 0 then 0
         else if odd n then real (s ! (n div 2))
         else (real (s ! (n div 2 - 1)) + real (s ! (n div 2))) / 2)"

text \<open>A non-negative double stored in an unsigned integer loses its fraction.\<close>

definition to_unsigned :: "real \<Rightarrow> nat" where
  "to_unsigned x = nat \<lfloor>x\<rfloor>"

definition bin_total :: "Counter \<Rightarrow> nat" where
  "bin_total c = unat (watson_count c + crick_count c)"

text \<open>Lines 53 to 63, \<^verbatim>\<open>median_by_sample\<close>.\<close>

definition median_by_sample :: "TGenomeCounts list \<Rightarrow> nat list" where
  "median_by_sample counts =
     map (\<lambda>i. to_unsigned (median (map bin_total (counts ! i)))) [0..<length counts]"

subsection \<open>What the run takes from outside\<close>

text \<open>
  The alignment reader, the decoder and the file system are parameters of the model.
  \<open>count_sorted_reads\<close> is the function of \<^verbatim>\<open>counts.hpp\<close>: it returns \<open>None\<close> where the
  C++ function returns false, and otherwise the counters of the cell (one per bin) and
  the cell's record with its tallies. \<open>run_HMM\<close> is the function of \<^verbatim>\<open>hmm.hpp\<close> that
  writes the state labels into the cell's counters. \<open>stem\<close> is
  \<^verbatim>\<open>boost::filesystem::path::stem\<close>.
\<close>

record Env =
  sam_open :: "string \<Rightarrow> bool"
  get_SM_tag :: "string \<Rightarrow> string option"
  count_sorted_reads ::
    "string \<Rightarrow> Interval list \<Rightarrow> int list \<Rightarrow> CellInfo \<Rightarrow> (TGenomeCounts \<times> CellInfo) option"
  run_HMM :: "HMM \<Rightarrow> TGenomeCounts \<Rightarrow> nat list \<Rightarrow> int list \<Rightarrow> TGenomeCounts"
  target_name :: "int \<Rightarrow> string"
  stem :: "string \<Rightarrow> string"
  out_is_open :: bool

text \<open>What \<^verbatim>\<open>main\<close> writes to \<^verbatim>\<open>std::cerr\<close> in the part of the run that is modelled.\<close>

datatype diagnostic =
    FailToOpen string
  | NeedOneSMTag
  | IgnoringCell string
  | CannotOpenOut

text \<open>
  The error taxonomy of the spec, and the kind each message of the code belongs to.
  No message of the code is an estimation error.
\<close>

datatype error_kind = ConfigError | OpenError | MissingSampleTagError | EstimationError
  | OutputWriteError

fun kind_of :: "diagnostic \<Rightarrow> error_kind" where
  "kind_of (FailToOpen f) = OpenError"
| "kind_of NeedOneSMTag = MissingSampleTagError"
| "kind_of (IgnoringCell f) = OpenError"
| "kind_of CannotOpenOut = OutputWriteError"

subsection \<open>Header scan (lines 156 to 170)\<close>

text \<open>
  Every cell gets its position in \<^verbatim>\<open>conf.f_in\<close> as id and the sample name of its
  header. A file that cannot be opened or has no single SM tag ends the run with exit
  code 1. The message for a file that cannot be opened names \<^verbatim>\<open>conf.f_in[0]\<close>.
\<close>

fun header_scan :: "Env \<Rightarrow> string list \<Rightarrow> nat list \<Rightarrow> CellInfo list \<Rightarrow> diagnostic list + CellInfo list" where
  "header_scan env f_in [] cells = Inr cells"
| "header_scan env f_in (i # rest) cells =
     (if \<not> sam_open env (f_in ! i) then Inl [FailToOpen (f_in ! 0)]
      else case get_SM_tag env (f_in ! i) of
             None \<Rightarrow> Inl [NeedOneSMTag]
           | Some sm \<Rightarrow>
               header_scan env f_in rest (cells[i := (cells ! i)\<lparr>id' := i, sample_name := sm\<rparr>]))"

subsection \<open>Chromosome indices (lines 197 to 198 and 323 to 334)\<close>

text \<open>
  \<open>skip_lower\<close> is the inner while loop of lines 327 to 328: \<open>key pos\<close> is the
  chromosome of the bin at position \<open>pos\<close> of a sequence of \<open>len\<close> bins.
  \<open>index_loop\<close> is the for loop over the chromosomes, which writes entry \<open>c\<close> of the
  index. Values are within the range of \<^verbatim>\<open>int32_t\<close> (fewer than \<open>2^31\<close> bins).
\<close>

function skip_lower :: "(nat \<Rightarrow> int) \<Rightarrow> nat \<Rightarrow> int \<Rightarrow> nat \<Rightarrow> nat" where
  "skip_lower key len c pos =
     (if pos < len \<and> key pos < c then skip_lower key len c (Suc pos) else pos)"
  by pat_completeness auto
termination
  by (relation "measure (\<lambda>(key, len, c, pos). len - pos)") auto

declare skip_lower.simps [simp del]

fun index_loop :: "(nat \<Rightarrow> int) \<Rightarrow> nat \<Rightarrow> nat list \<Rightarrow> nat \<Rightarrow> int list \<Rightarrow> int list" where
  "index_loop key len [] pos m = m"
| "index_loop key len (c # rest) pos m =
     (let pos1 = skip_lower key len (int c) pos
      in index_loop key len rest pos1
           (m[c := (if len \<le> pos1 then int len else int pos1)]))"

definition build_good_map :: "Interval list \<Rightarrow> nat list \<Rightarrow> nat \<Rightarrow> int list" where
  "build_good_map bins good_bins n_targets =
     index_loop (\<lambda>pos. chr (bins ! (good_bins ! pos))) (length good_bins)
       [0..<n_targets] 0 (replicate n_targets (- 1))
     @ [int (length good_bins)]"

text \<open>
  Modelled from the spec: \<^verbatim>\<open>create_fixed_bins\<close> and \<^verbatim>\<open>read_dynamic_bins\<close> of
  \<^verbatim>\<open>intervals.hpp\<close>, which fill the raw chromosome index, are missing. The spec says
  that the good-bin index is built the same way as the raw chromosome index, over the
  filtered set; so the raw index is the same loop over all bins. The last entry is
  the \<^verbatim>\<open>push_back\<close> of line 198.
\<close>

definition build_chrom_map :: "Interval list \<Rightarrow> nat \<Rightarrow> int list" where
  "build_chrom_map bins n_targets =
     index_loop (\<lambda>pos. chr (bins ! pos)) (length bins)
       [0..<n_targets] 0 (replicate n_targets (- 1))
     @ [int (length bins)]"

subsection \<open>Counting (lines 201 to 214)\<close>

text \<open>
  \<open>i\<close> is the position in \<open>cells\<close> and \<open>counts\<close>, \<open>i_f\<close> the position in \<^verbatim>\<open>conf.f_in\<close>.
  When the reader fails, entry \<open>i\<close> is erased from both sequences and \<open>i\<close> is
  decremented before the increment of the loop, so it stays (the unsigned \<open>i\<close> wraps
  from 0 and back).
\<close>

definition erase :: "'a list \<Rightarrow> nat \<Rightarrow> 'a list" where
  "erase xs i = take i xs @ drop (Suc i) xs"

function count_loop ::
  "Env \<Rightarrow> string list \<Rightarrow> Interval list \<Rightarrow> int list \<Rightarrow> nat \<Rightarrow> nat \<Rightarrow>
   CellInfo list \<times> TGenomeCounts list \<times> diagnostic list \<Rightarrow>
   CellInfo list \<times> TGenomeCounts list \<times> diagnostic list" where
  "count_loop env f_in bins chrom_map i i_f (cells, counts, err) =
     (if i_f < length f_in then
        (case count_sorted_reads env (f_in ! i_f) bins chrom_map (cells ! i) of
           None \<Rightarrow>
             count_loop env f_in bins chrom_map i (Suc i_f)
               (erase cells i, erase counts i, err @ [IgnoringCell (f_in ! i_f)])
         | Some (cnt, cell) \<Rightarrow>
             count_loop env f_in bins chrom_map (Suc i) (Suc i_f)
               (cells[i := cell], counts[i := cnt], err))
      else (cells, counts, err))"
  by pat_completeness auto
termination
  by (relation "measure (\<lambda>(env, f_in, bins, chrom_map, i, i_f, st). length f_in - i_f)") auto

declare count_loop.simps [simp del]

subsection \<open>Median count per cell (lines 216 to 222)\<close>

fun median_loop :: "TGenomeCounts list \<Rightarrow> nat list \<Rightarrow> CellInfo list \<Rightarrow> CellInfo list" where
  "median_loop counts [] cells = cells"
| "median_loop counts (i # rest) cells =
     median_loop counts rest
       (cells[i := (cells ! i)\<lparr>median_bin_count :=
          to_unsigned (median (map bin_total (counts ! i)))\<rparr>])"

subsection \<open>Bin filter (lines 266 to 299)\<close>

text \<open>
  Both strand counts of a bin are divided by the median of the cell, after the
  median is cast to float. There is no test for a median of zero.
\<close>

definition norm_counts :: "TGenomeCounts list \<Rightarrow> CellInfo list \<Rightarrow> nat \<Rightarrow> (fval \<times> fval) list list" where
  "norm_counts counts cells nbins =
     map (\<lambda>i. map (\<lambda>bin.
            (fv_div (of_unsigned (unat (watson_count (counts ! i ! bin))))
                    (of_unsigned (median_bin_count (cells ! i))),
             fv_div (of_unsigned (unat (crick_count (counts ! i ! bin))))
                    (of_unsigned (median_bin_count (cells ! i)))))
          [0..<nbins])
       [0..<length counts]"

definition bin_samples :: "(fval \<times> fval) list list \<Rightarrow> nat \<Rightarrow> fval list" where
  "bin_samples nc bin = map (\<lambda>i. fv_add (fst (nc ! i ! bin)) (snd (nc ! i ! bin))) [0..<length nc]"

definition bin_means :: "(fval \<times> fval) list list \<Rightarrow> nat \<Rightarrow> fval list" where
  "bin_means nc nbins = map (\<lambda>bin. mean (bin_samples nc bin)) [0..<nbins]"

definition bin_variances :: "(fval \<times> fval) list list \<Rightarrow> nat \<Rightarrow> fval list" where
  "bin_variances nc nbins = map (\<lambda>bin. variance (bin_samples nc bin)) [0..<nbins]"

text \<open>
  Lines 294 to 298. \<open>hi\<close> is \<^verbatim>\<open>my_mean + 3*my_sd\<close>; a good bin is appended to
  \<open>good_bins\<close>, for any other bin its reason code is appended to \<open>bad_bins\<close>.
\<close>

definition is_good :: "fval \<Rightarrow> fval \<Rightarrow> bool" where
  "is_good m hi = (fv_greater m (Fin 0.01) \<and> fv_less m hi)"

definition reason :: "fval \<Rightarrow> char" where
  "reason m = (if fv_le m (Fin 0.01) then CHR ''l'' else CHR ''h'')"

fun find_good_bins :: "fval list \<Rightarrow> fval \<Rightarrow> nat list \<Rightarrow> nat list \<times> char list \<Rightarrow> nat list \<times> char list" where
  "find_good_bins bm hi [] (good_bins, bad_bins) = (good_bins, bad_bins)"
| "find_good_bins bm hi (bin # rest) (good_bins, bad_bins) =
     (if is_good (bm ! bin) hi
      then find_good_bins bm hi rest (good_bins @ [bin], bad_bins)
      else find_good_bins bm hi rest (good_bins, bad_bins @ [reason (bm ! bin)]))"

definition my_mean :: "fval list \<Rightarrow> fval" where
  "my_mean bm = mean bm"

definition my_sd :: "fval list \<Rightarrow> fval" where
  "my_sd bm = fv_sqrt (variance bm)"

definition upper_limit :: "fval list \<Rightarrow> fval" where
  "upper_limit bm = fv_add (my_mean bm) (fv_mul (Fin 3) (my_sd bm))"

definition filter_bins :: "TGenomeCounts list \<Rightarrow> CellInfo list \<Rightarrow> nat \<Rightarrow> nat list \<times> char list" where
  "filter_bins counts cells nbins =
     (let bm = bin_means (norm_counts counts cells nbins) nbins
      in find_good_bins bm (upper_limit bm) [0..<nbins] ([], []))"

subsection \<open>Estimate of p per sample (lines 337 to 358)\<close>

text \<open>
  For every cell the accumulator takes the sum of both counts of every good bin.
  \<^verbatim>\<open>samples.emplace\<close> finds the sample of the cell or inserts a new one; mean and
  variance of the cell are appended to it. \<^verbatim>\<open>samples\<close> is an unordered map from the
  sample name.
\<close>

definition good_totals :: "TGenomeCounts \<Rightarrow> nat list \<Rightarrow> fval list" where
  "good_totals cnt good_bins =
     map (\<lambda>bini. of_unsigned (unat (crick_count (cnt ! (good_bins ! bini))
                                     + watson_count (cnt ! (good_bins ! bini)))))
       [0..<length good_bins]"

definition add_cell :: "string \<Rightarrow> fval \<Rightarrow> fval \<Rightarrow> (string \<rightharpoonup> SampleInfo) \<Rightarrow> (string \<rightharpoonup> SampleInfo)" where
  "add_cell k m v samples =
     (let s = (case samples k of None \<Rightarrow> new_SampleInfo | Some s0 \<Rightarrow> s0)
      in samples(k \<mapsto> s\<lparr>means := means s @ [m], vars := vars s @ [v]\<rparr>))"

fun collect_samples ::
  "TGenomeCounts list \<Rightarrow> CellInfo list \<Rightarrow> nat list \<Rightarrow> nat list \<Rightarrow>
   (string \<rightharpoonup> SampleInfo) \<Rightarrow> (string \<rightharpoonup> SampleInfo)" where
  "collect_samples counts cells good_bins [] samples = samples"
| "collect_samples counts cells good_bins (i # rest) samples =
     collect_samples counts cells good_bins rest
       (add_cell (sample_name (cells ! i))
          (mean (good_totals (counts ! i) good_bins))
          (variance (good_totals (counts ! i) good_bins)) samples)"

text \<open>\<^verbatim>\<open>std::inner_product\<close> with the initial value \<^verbatim>\<open>0.0f\<close>.\<close>

definition inner_product :: "fval list \<Rightarrow> fval list \<Rightarrow> fval \<Rightarrow> fval" where
  "inner_product xs ys init = foldl (\<lambda>acc (x, y). fv_add acc (fv_mul x y)) init (zip xs ys)"

definition fit_p :: "SampleInfo \<Rightarrow> SampleInfo" where
  "fit_p s = s\<lparr>p' := fv_div (inner_product (means s) (means s) (Fin 0))
                          (inner_product (means s) (vars s) (Fin 0))\<rparr>"

definition estimate_p :: "(string \<rightharpoonup> SampleInfo) \<Rightarrow> (string \<rightharpoonup> SampleInfo)" where
  "estimate_p samples = (\<lambda>k. case samples k of None \<Rightarrow> None | Some s \<Rightarrow> Some (fit_p s))"

definition estimate_samples ::
  "TGenomeCounts list \<Rightarrow> CellInfo list \<Rightarrow> nat list \<Rightarrow> (string \<rightharpoonup> SampleInfo)" where
  "estimate_samples counts cells good_bins =
     estimate_p (collect_samples counts cells good_bins [0..<length counts] Map.empty)"

subsection \<open>Decode of every cell (lines 398 to 413)\<close>

text \<open>
  \<^verbatim>\<open>samples[name]\<close> is the entry of the sample, which \<^verbatim>\<open>operator[]\<close> would create if it
  were missing. The emissions of the one model object are overwritten for every cell,
  then \<open>run_HMM\<close> labels the counters of the cell. Nothing tests \<open>p\<close>.
\<close>

definition sample_p :: "(string \<rightharpoonup> SampleInfo) \<Rightarrow> string \<Rightarrow> fval" where
  "sample_p samples k = (case samples k of None \<Rightarrow> p' new_SampleInfo | Some s \<Rightarrow> p' s)"

definition nb_n :: "fval \<Rightarrow> nat \<Rightarrow> fval" where
  "nb_n p med = fv_div (fv_mul (fv_div (of_unsigned med) (Fin 2)) p) (fv_sub (Fin 1) p)"

definition cell_emissions :: "fval \<Rightarrow> nat \<Rightarrow> MultiVariate list" where
  "cell_emissions p med =
     (let n = nb_n p med; z = Fin 0.5
      in [[NegativeBinomial p (fv_mul (Fin 2) n), NegativeBinomial p z],
          [NegativeBinomial p n, NegativeBinomial p n],
          [NegativeBinomial p z, NegativeBinomial p (fv_mul (Fin 2) n)]])"

fun decode_loop ::
  "Env \<Rightarrow> (string \<rightharpoonup> SampleInfo) \<Rightarrow> CellInfo list \<Rightarrow> nat list \<Rightarrow> int list \<Rightarrow> nat list \<Rightarrow>
   HMM \<times> TGenomeCounts list \<times> diagnostic list \<Rightarrow> HMM \<times> TGenomeCounts list \<times> diagnostic list" where
  "decode_loop env samples cells good_bins good_map [] (hmm, counts, err) = (hmm, counts, err)"
| "decode_loop env samples cells good_bins good_map (i # rest) (hmm, counts, err) =
     (let hmm1 = set_emissions
                   (cell_emissions (sample_p samples (sample_name (cells ! i)))
                      (median_bin_count (cells ! i))) hmm
      in decode_loop env samples cells good_bins good_map rest
           (hmm1, counts[i := run_HMM env hmm1 (counts ! i) good_bins good_map], err))"

subsection \<open>The count table (lines 418 to 439)\<close>

record Row =
  r_chrom :: string
  r_start :: nat
  r_end :: nat
  r_sample :: string
  r_cell :: string
  r_c :: "32 word"
  r_w :: "32 word"
  r_class :: string

definition table_header :: "string list" where
  "table_header = [''chrom'', ''start'', ''end'', ''sample'', ''cell'', ''c'', ''w'', ''class'']"

definition table_row :: "Env \<Rightarrow> string list \<Rightarrow> Interval list \<Rightarrow> CellInfo list \<Rightarrow> TGenomeCounts list \<Rightarrow> nat \<Rightarrow> nat \<Rightarrow> Row" where
  "table_row env f_in bins cells counts i bin =
     \<lparr>r_chrom = target_name env (chr (bins ! bin)),
      r_start = start (bins ! bin),
      r_end = end' (bins ! bin),
      r_sample = sample_name (cells ! i),
      r_cell = stem env (f_in ! i),
      r_c = crick_count (counts ! i ! bin),
      r_w = watson_count (counts ! i ! bin),
      r_class = label (counts ! i ! bin)\<rparr>"

definition table_rows :: "Env \<Rightarrow> string list \<Rightarrow> Interval list \<Rightarrow> CellInfo list \<Rightarrow> TGenomeCounts list \<Rightarrow> Row list" where
  "table_rows env f_in bins cells counts =
     concat (map (\<lambda>i. map (table_row env f_in bins cells counts i) [0..<length (counts ! i)])
               [0..<length counts])"

subsection \<open>The run\<close>

text \<open>
  The run from the header scan on, for the input files \<open>f_in\<close> (not empty: \<^verbatim>\<open>main\<close>
  prints its usage otherwise), the bins and the number of chromosomes of the header.
  The optional reports are not requested. The result is the exit code, what was
  written to \<^verbatim>\<open>std::cerr\<close>, and the count table if it was written.
\<close>

record Run =
  exit_code :: nat
  diagnostics :: "diagnostic list"
  table :: "(string list \<times> Row list) option"

definition counting :: "Env \<Rightarrow> string list \<Rightarrow> Interval list \<Rightarrow> nat \<Rightarrow> CellInfo list \<Rightarrow>
    CellInfo list \<times> TGenomeCounts list \<times> diagnostic list" where
  "counting env f_in bins n_targets cells0 =
     count_loop env f_in bins (build_chrom_map bins n_targets) 0 0
       (cells0, replicate (length f_in) [], [])"

definition decoding :: "Env \<Rightarrow> Interval list \<Rightarrow> nat \<Rightarrow> CellInfo list \<Rightarrow> TGenomeCounts list \<Rightarrow>
    diagnostic list \<Rightarrow> HMM \<times> TGenomeCounts list \<times> diagnostic list" where
  "decoding env bins n_targets cells counts err =
     (let good_bins = fst (filter_bins counts cells (length bins));
          good_map = build_good_map bins good_bins n_targets;
          samples = estimate_samples counts cells good_bins
      in decode_loop env samples cells good_bins good_map [0..<length counts]
           (setup_hmm (length bins), counts, err))"

definition main :: "Env \<Rightarrow> string list \<Rightarrow> Interval list \<Rightarrow> nat \<Rightarrow> Run" where
  "main env f_in bins n_targets =
     (case header_scan env f_in [0..<length f_in] (replicate (length f_in) new_CellInfo) of
        Inl err \<Rightarrow> \<lparr>exit_code = 1, diagnostics = err, table = None\<rparr>
      | Inr cells0 \<Rightarrow>
          (case counting env f_in bins n_targets cells0 of
             (cells1, counts1, err1) \<Rightarrow>
               (let cells2 = median_loop counts1 [0..<length counts1] cells1
                in case decoding env bins n_targets cells2 counts1 err1 of
                     (hmm, counts2, err2) \<Rightarrow>
                       if out_is_open env
                       then \<lparr>exit_code = 0, diagnostics = err2,
                             table = Some (table_header, table_rows env f_in bins cells2 counts2)\<rparr>
                       else \<lparr>exit_code = 2, diagnostics = err2 @ [CannotOpenOut], table = None\<rparr>)))"

subsection \<open>What the counting loop leaves\<close>

text \<open>
  The cells whose file the reader could read, each with its counters, in the order
  of the input files; and the files the reader failed on. The counting loop is
  compared with these two functions.
\<close>

fun survivors :: "Env \<Rightarrow> Interval list \<Rightarrow> int list \<Rightarrow> (string \<times> CellInfo) list \<Rightarrow> (CellInfo \<times> TGenomeCounts) list" where
  "survivors env bins chrom_map [] = []"
| "survivors env bins chrom_map ((f, cell0) # rest) =
     (case count_sorted_reads env f bins chrom_map cell0 of
        None \<Rightarrow> survivors env bins chrom_map rest
      | Some (cnt, cell) \<Rightarrow> (cell, cnt) # survivors env bins chrom_map rest)"

fun unreadable :: "Env \<Rightarrow> Interval list \<Rightarrow> int list \<Rightarrow> (string \<times> CellInfo) list \<Rightarrow> string list" where
  "unreadable env bins chrom_map [] = []"
| "unreadable env bins chrom_map ((f, cell0) # rest) =
     (case count_sorted_reads env f bins chrom_map cell0 of
        None \<Rightarrow> f # unreadable env bins chrom_map rest
      | Some r \<Rightarrow> unreadable env bins chrom_map rest)"

subsection \<open>Inputs used in the examples\<close>

text \<open>
  Counters of single cells: two bins with the totals 1 and 2; two bins with the totals
  0 and 4; three bins of which two are empty. And a cell record with a given median.
\<close>

definition two_bins :: "TGenomeCounts" where
  "two_bins = [\<lparr>watson_count = 1, crick_count = 0, label = []\<rparr>,
               \<lparr>watson_count = 1, crick_count = 1, label = []\<rparr>]"

definition spread :: TGenomeCounts where
  "spread = [\<lparr>watson_count = 0, crick_count = 0, label = []\<rparr>,
             \<lparr>watson_count = 1, crick_count = 3, label = []\<rparr>]"

definition sparse_bins :: TGenomeCounts where
  "sparse_bins = [\<lparr>watson_count = 0, crick_count = 0, label = []\<rparr>,
                  \<lparr>watson_count = 0, crick_count = 0, label = []\<rparr>,
                  \<lparr>watson_count = 1, crick_count = 2, label = []\<rparr>]"

definition cell_med :: "nat \<Rightarrow> CellInfo" where
  "cell_med m = new_CellInfo\<lparr>median_bin_count := m\<rparr>"

text \<open>
  Three bins on the chromosomes 0, 0 and 2 of three. Two bins on one chromosome; a
  cell with the totals 2 and 4 and a cell with the totals 1 and 9 on them. A reader
  that fails on the file \<^verbatim>\<open>a.bam\<close> and returns the first of these cells for any other
  file, a decoder that labels every bin WC, and the environment made of them.
\<close>

definition three_bins :: "Interval list" where
  "three_bins = [\<lparr>chr = 0, start = 0, end' = 100\<rparr>,
                 \<lparr>chr = 0, start = 100, end' = 200\<rparr>,
                 \<lparr>chr = 2, start = 0, end' = 100\<rparr>]"

definition balanced :: TGenomeCounts where
  "balanced = [\<lparr>watson_count = 1, crick_count = 1, label = []\<rparr>,
               \<lparr>watson_count = 2, crick_count = 2, label = []\<rparr>]"

definition two_intervals :: "Interval list" where
  "two_intervals = [\<lparr>chr = 0, start = 0, end' = 100\<rparr>, \<lparr>chr = 0, start = 100, end' = 200\<rparr>]"

definition reader :: "string \<Rightarrow> Interval list \<Rightarrow> int list \<Rightarrow> CellInfo \<Rightarrow> (TGenomeCounts \<times> CellInfo) option" where
  "reader f bins chrom_map cell =
     (if f = ''a.bam'' then None else Some (balanced, cell\<lparr>n_mapped := 6, n_counted := 6\<rparr>))"

definition label_all :: "HMM \<Rightarrow> TGenomeCounts \<Rightarrow> nat list \<Rightarrow> int list \<Rightarrow> TGenomeCounts" where
  "label_all hmm cnt good_bins good_map = map (\<lambda>c. c\<lparr>label := ''WC''\<rparr>) cnt"

definition example_env :: Env where
  "example_env =
     \<lparr>sam_open = (\<lambda>f. True),
      get_SM_tag = (\<lambda>f. Some (if f = ''a.bam'' then ''A'' else ''B'')),
      count_sorted_reads = reader,
      run_HMM = label_all,
      target_name = (\<lambda>c. ''chr1''),
      stem = takeWhile (\<lambda>ch. ch \<noteq> CHR ''.''),
      out_is_open = True\<rparr>"

definition cell_A :: CellInfo where
  "cell_A = new_CellInfo\<lparr>id' := 0, sample_name := ''A''\<rparr>"

definition cell_B :: CellInfo where
  "cell_B = new_CellInfo\<lparr>id' := 1, sample_name := ''B''\<rparr>"

definition dispersed :: TGenomeCounts where
  "dispersed = [\<lparr>watson_count = 0, crick_count = 1, label = []\<rparr>,
                \<lparr>watson_count = 4, crick_count = 5, label = []\<rparr>]"

definition cell_D :: CellInfo where
  "cell_D = new_CellInfo\<lparr>sample_name := ''B'', median_bin_count := 5\<rparr>"

section \<open>Properties\<close>

subsection \<open>Facts about lists and square roots\<close>

lemma upt_2: "[0..<2] = [0, 1]"
  by (simp add: numeral_2_eq_2)

lemma upt_3: "[0..<3] = [0, 1, 2]"
  by (simp add: numeral_3_eq_3)

lemma singleton_nth: "length xs = 1 \<Longrightarrow> xs ! 0 = x \<Longrightarrow> xs = [x]"
  by (cases xs) auto

lemma sort_eq_Nil_iff: "sort xs = [] \<longleftrightarrow> xs = []"
  by (metis length_0_conv length_sort)

lemma length_filter_partition:
  "length (filter P xs) + length (filter (\<lambda>x. \<not> P x) xs) = length xs"
  by (induction xs) simp_all

lemma length_filter_take_le: "length (filter P (take k xs)) \<le> length (filter P xs)"
proof -
  have "filter P xs = filter P (take k xs) @ filter P (drop k xs)"
    by (metis append_take_drop_id filter_append)
  then show ?thesis by simp
qed

lemma length_filter_sort: "length (filter P (sort xs)) = length (filter P xs)"
  by (simp add: filter_sort)

lemma sorted_zero_prefix:
  fixes s :: "nat list"
  assumes "sorted s" and "k < length s" and "s ! k = 0"
  shows "Suc k \<le> length (filter (\<lambda>x. x = 0) s)"
proof -
  have "\<forall>x \<in> set (take (Suc k) s). x = 0"
  proof
    fix x assume "x \<in> set (take (Suc k) s)"
    then obtain j where j: "j < Suc k" "x = s ! j"
      using assms(2) by (auto simp: in_set_conv_nth)
    with assms have "s ! j \<le> s ! k" by (intro sorted_nth_mono) auto
    with j assms(3) show "x = 0" by simp
  qed
  then have "filter (\<lambda>x. x = 0) (take (Suc k) s) = take (Suc k) s"
    by (simp add: filter_id_conv)
  then have "length (filter (\<lambda>x. x = 0) (take (Suc k) s)) = Suc k"
    using assms(2) by simp
  with length_filter_take_le [of "\<lambda>x. x = 0" "Suc k" s] show ?thesis by simp
qed

lemma sqrt_ninth: "sqrt (1 / 9) = 1 / 3"
  by (rule real_sqrt_unique) (simp_all add: power2_eq_square)

lemma sqrt_16_25: "sqrt (16 / 25) = 4 / 5"
  by (rule real_sqrt_unique) (simp_all add: power2_eq_square)

subsection \<open>Arithmetic on finite values\<close>

lemma fv_div_zero_median:
  "fv_div (of_unsigned w) (of_unsigned 0) = (if w = 0 then NaN else PInf)"
  by (simp add: of_unsigned_def)

lemma fv_div_pos_median:
  "0 < m \<Longrightarrow> fv_div (of_unsigned w) (of_unsigned m) = Fin (real w / real m)"
  by (simp add: of_unsigned_def)

lemma foldl_fv_add_Fin:
  "foldl fv_add (Fin a) (map (\<lambda>x. Fin (f x)) xs) = Fin (a + (\<Sum>x\<leftarrow>xs. f x))"
  by (induction xs arbitrary: a) (simp_all add: add.assoc)

lemma mean_Fin:
  "xs \<noteq> [] \<Longrightarrow> mean (map (\<lambda>x. Fin (f x)) xs) = Fin ((\<Sum>x\<leftarrow>xs. f x) / real (length xs))"
  by (simp add: mean_def fv_sum_def foldl_fv_add_Fin of_unsigned_def)

lemma variance_Fin:
  assumes "xs \<noteq> []"
  shows "variance (map (\<lambda>x. Fin (f x)) xs) =
           Fin ((\<Sum>x\<leftarrow>xs. f x * f x) / real (length xs)
                - ((\<Sum>x\<leftarrow>xs. f x) / real (length xs)) * ((\<Sum>x\<leftarrow>xs. f x) / real (length xs)))"
proof -
  have sq: "map (\<lambda>x. fv_mul x x) (map (\<lambda>x. Fin (f x)) xs) = map (\<lambda>x. Fin (f x * f x)) xs"
    by simp
  have 1: "mean (map (\<lambda>x. Fin (f x * f x)) xs) = Fin ((\<Sum>x\<leftarrow>xs. f x * f x) / real (length xs))"
    using assms by (rule mean_Fin)
  have 2: "mean (map (\<lambda>x. Fin (f x)) xs) = Fin ((\<Sum>x\<leftarrow>xs. f x) / real (length xs))"
    using assms by (rule mean_Fin)
  show ?thesis unfolding variance_def sq 1 2 by (simp add: fv_sub_def)
qed

lemma inner_product_Fin:
  "inner_product (map (\<lambda>j. Fin (f j)) js) (map (\<lambda>j. Fin (g j)) js) (Fin a)
     = Fin (a + (\<Sum>j\<leftarrow>js. f j * g j))"
  by (induction js arbitrary: a) (simp_all add: inner_product_def add.assoc)

subsection \<open>Median count per cell\<close>

lemma median_loop_nth:
  "i < length cells \<Longrightarrow> median_loop counts ixs cells ! i =
     (if i \<in> set ixs
      then (cells ! i)\<lparr>median_bin_count := to_unsigned (median (map bin_total (counts ! i)))\<rparr>
      else cells ! i)"
proof (induction ixs arbitrary: cells)
  case Nil
  then show ?case by simp
next
  case (Cons a ixs)
  then show ?case by (cases "a = i") simp_all
qed

lemma to_unsigned_of_nat: "to_unsigned (real n) = n"
  by (simp add: to_unsigned_def)

lemma to_unsigned_half: "to_unsigned ((real a + real b) / 2) = (a + b) div 2"
proof -
  have "\<lfloor>real (a + b) / real 2\<rfloor> = int ((a + b) div 2)"
    by (rule floor_divide_of_nat_eq)
  then show ?thesis by (simp add: to_unsigned_def)
qed

lemma to_unsigned_median:
  "to_unsigned (median xs) =
     (if length xs = 0 then 0
      else if odd (length xs) then sort xs ! (length xs div 2)
      else (sort xs ! (length xs div 2 - 1) + sort xs ! (length xs div 2)) div 2)"
proof -
  have "to_unsigned 0 = 0" by (simp add: to_unsigned_def)
  then show ?thesis
    by (simp add: median_def Let_def to_unsigned_of_nat to_unsigned_half sort_eq_Nil_iff)
qed

lemma exact_median_zero: "median xs = 0 \<Longrightarrow> to_unsigned (median xs) = 0"
  by (simp add: to_unsigned_def)

lemma median_zero_half:
  assumes "to_unsigned (median xs) = 0"
  shows "length xs \<le> 2 * length (filter (\<lambda>x. x = 0) xs)"
proof (cases "xs = []")
  case True
  then show ?thesis by simp
next
  case False
  let ?s = "sort xs" and ?n = "length xs"
  have n: "0 < ?n" using False by simp
  have len: "length ?s = ?n" by simp
  from assms have m: "(if odd ?n then ?s ! (?n div 2)
      else (?s ! (?n div 2 - 1) + ?s ! (?n div 2)) div 2) = 0"
    using False by (simp add: to_unsigned_median)
  have srt: "sorted ?s" by simp
  show ?thesis
  proof (cases "odd ?n")
    case True
    with m have z: "?s ! (?n div 2) = 0" by simp
    have "?n div 2 < length ?s" using n by simp
    from sorted_zero_prefix [OF srt this z]
    have "Suc (?n div 2) \<le> length (filter (\<lambda>x. x = 0) xs)" by (simp add: length_filter_sort)
    then have "2 * Suc (?n div 2) \<le> 2 * length (filter (\<lambda>x. x = 0) xs)"
      by (rule mult_le_mono2)
    moreover have "?n \<le> 2 * Suc (?n div 2)" by presburger
    ultimately show ?thesis by (rule order_trans [rotated])
  next
    case False
    with m have "(?s ! (?n div 2 - 1) + ?s ! (?n div 2)) div 2 = 0" by simp
    then have lt: "?s ! (?n div 2 - 1) + ?s ! (?n div 2) < 2" by simp
    have k: "?n div 2 - 1 < length ?s" using n by (simp add: less_imp_diff_less)
    have "?s ! (?n div 2 - 1) \<le> ?s ! (?n div 2)"
      using n by (intro sorted_nth_mono [OF srt]) auto
    with lt have z: "?s ! (?n div 2 - 1) = 0" by linarith
    from sorted_zero_prefix [OF srt k z]
    have "Suc (?n div 2 - 1) \<le> length (filter (\<lambda>x. x = 0) xs)" by (simp add: length_filter_sort)
    then have "2 * Suc (?n div 2 - 1) \<le> 2 * length (filter (\<lambda>x. x = 0) xs)"
      by (rule mult_le_mono2)
    moreover have "2 * Suc (?n div 2 - 1) = ?n" using False n by presburger
    ultimately show ?thesis by simp
  qed
qed

text \<open>
  C4, as the code has it. For every retained cell, \<open>median_bin_count\<close> is the median
  of the per-bin totals (Watson count plus Crick count, as unsigned integers) over all
  bins, cut to an unsigned integer: the middle value of the sorted totals for an odd
  number of bins, and for an even number of bins the integer quotient of the sum of
  the two middle values by 2. \<^verbatim>\<open>median_by_sample\<close> returns the same number.
\<close>

theorem median_bin_count_truncated:
  assumes "i < length counts" and "length cells0 = length counts"
    and "s = sort (map bin_total (counts ! i))" and "n = length (counts ! i)"
  shows "median_bin_count (median_loop counts [0..<length counts] cells0 ! i)
           = nat \<lfloor>median (map bin_total (counts ! i))\<rfloor>
       \<and> median_by_sample counts ! i = nat \<lfloor>median (map bin_total (counts ! i))\<rfloor>
       \<and> (odd n \<longrightarrow> nat \<lfloor>median (map bin_total (counts ! i))\<rfloor> = s ! (n div 2))
       \<and> (even n \<and> 0 < n \<longrightarrow>
            nat \<lfloor>median (map bin_total (counts ! i))\<rfloor> = (s ! (n div 2 - 1) + s ! (n div 2)) div 2)"
proof -
  have a: "median_bin_count (median_loop counts [0..<length counts] cells0 ! i)
           = nat \<lfloor>median (map bin_total (counts ! i))\<rfloor>"
    using assms(1,2) by (simp add: median_loop_nth to_unsigned_def)
  have b: "median_by_sample counts ! i = nat \<lfloor>median (map bin_total (counts ! i))\<rfloor>"
    using assms(1) by (simp add: median_by_sample_def to_unsigned_def)
  have m: "nat \<lfloor>median (map bin_total (counts ! i))\<rfloor> =
     (if n = 0 then 0
      else if odd n then s ! (n div 2)
      else (s ! (n div 2 - 1) + s ! (n div 2)) div 2)"
    using to_unsigned_median [of "map bin_total (counts ! i)"]
    by (simp add: to_unsigned_def assms(3,4))
  have c: "odd n \<longrightarrow> nat \<lfloor>median (map bin_total (counts ! i))\<rfloor> = s ! (n div 2)"
    by (auto simp: m)
  have d: "even n \<and> 0 < n \<longrightarrow>
            nat \<lfloor>median (map bin_total (counts ! i))\<rfloor> = (s ! (n div 2 - 1) + s ! (n div 2)) div 2"
    by (auto simp: m)
  from a b c d show ?thesis by blast
qed

lemma two_bins_sorted: "sort (map bin_total two_bins) = [1, 2]"
  by (simp add: two_bins_def bin_total_def)

lemma two_bins_median: "median (map bin_total two_bins) = 3 / 2"
  by (simp add: median_def two_bins_sorted Let_def)

lemma two_bins_stored:
  "median_bin_count (median_loop [two_bins] [0..<length [two_bins]] [new_CellInfo] ! 0) = 1"
  by (simp add: to_unsigned_def two_bins_median)

lemma two_bins_stored_median: "to_unsigned (median (map bin_total two_bins)) = 1"
  by (simp add: to_unsigned_def two_bins_median)

text \<open>
  A cell with two bins of the totals 1 and 2: the median is 3/2, the stored
  \<open>median_bin_count\<close> is 1, and so is the entry of \<^verbatim>\<open>median_by_sample\<close>.
\<close>

theorem median_bin_count_counterexample:
  "median (map bin_total two_bins) = 3 / 2
   \<and> median_bin_count (median_loop [two_bins] [0..<length [two_bins]] [new_CellInfo] ! 0) = 1
   \<and> real (median_bin_count (median_loop [two_bins] [0..<length [two_bins]] [new_CellInfo] ! 0))
       \<noteq> median (map bin_total two_bins)
   \<and> median_by_sample [two_bins] = [1]"
proof -
  have "median_by_sample [two_bins] = [1]"
    by (simp add: median_by_sample_def two_bins_stored_median)
  then show ?thesis
    by (simp only: two_bins_stored two_bins_median) simp
qed

theorem median_bin_count_truncated_witness:
  "median_bin_count (median_loop [two_bins] [0..<length [two_bins]] [new_CellInfo] ! 0)
     = (1 + 2) div 2
   \<and> median_by_sample [two_bins] ! 0 = (1 + 2) div 2"
proof -
  have 1: "(0::nat) < length [two_bins]" by simp
  have 2: "length [new_CellInfo] = length [two_bins]" by simp
  have 3: "[1, 2] = sort (map bin_total ([two_bins] ! 0))" by (simp add: two_bins_sorted)
  have 4: "(2::nat) = length ([two_bins] ! 0)" by (simp add: two_bins_def)
  note h = median_bin_count_truncated [OF 1 2 3 4]
  from h have e: "nat \<lfloor>median (map bin_total ([two_bins] ! 0))\<rfloor> = ([1, 2] ! (2 div 2 - 1) + [1, 2] ! (2 div 2)) div 2"
    by simp
  have f: "([1, 2] ! (2 div 2 - 1) + [1, 2] ! (2 div 2)) div 2 = ((1 + 2) div 2 :: nat)" by simp
  from h e f show ?thesis by simp
qed

subsection \<open>Normalization by the median\<close>

lemma norm_counts_nth:
  assumes "i < length counts" and "bin < nbins"
  shows "norm_counts counts cells nbins ! i ! bin =
           (fv_div (of_unsigned (unat (watson_count (counts ! i ! bin))))
                   (of_unsigned (median_bin_count (cells ! i))),
            fv_div (of_unsigned (unat (crick_count (counts ! i ! bin))))
                   (of_unsigned (median_bin_count (cells ! i))))"
  using assms by (simp add: norm_counts_def)

lemma length_norm_counts: "length (norm_counts counts cells nbins) = length counts"
  by (simp add: norm_counts_def)

text \<open>
  C10. The normalized counts of a bin of a retained cell are the two strand counts
  divided by the \<open>median_bin_count\<close> of the cell, without a test for zero. With a
  positive median they are the two quotients. With a median of zero, which is where
  the median of the per-bin totals is zero, each of them is the result of a division by
  zero (NaN for a count of zero, infinity otherwise), and then at least half of the
  bins of the cell have a total of zero.
\<close>

theorem norm_counts_division_by_median:
  assumes "i < length counts" and "bin < nbins" and "length cells0 = length counts"
    and "cells = median_loop counts [0..<length counts] cells0"
    and "med = median_bin_count (cells ! i)"
    and "w = unat (watson_count (counts ! i ! bin))"
    and "c = unat (crick_count (counts ! i ! bin))"
    and "nc = norm_counts counts cells nbins ! i ! bin"
  shows "med = to_unsigned (median (map bin_total (counts ! i)))
       \<and> nc = (fv_div (of_unsigned w) (of_unsigned med), fv_div (of_unsigned c) (of_unsigned med))
       \<and> (0 < med \<longrightarrow> nc = (Fin (real w / real med), Fin (real c / real med)))
       \<and> (med = 0 \<longrightarrow> nc = (if w = 0 then NaN else PInf, if c = 0 then NaN else PInf)
                       \<and> \<not> is_Fin (fst nc) \<and> \<not> is_Fin (snd nc))
       \<and> (median (map bin_total (counts ! i)) = 0 \<longrightarrow> med = 0)
       \<and> (med = 0 \<longrightarrow>
            length (counts ! i) \<le> 2 * length (filter (\<lambda>b. bin_total b = 0) (counts ! i)))"
proof -
  have 1: "med = to_unsigned (median (map bin_total (counts ! i)))"
    using assms(1,3) by (simp add: assms(4,5) median_loop_nth)
  have 2: "nc = (fv_div (of_unsigned w) (of_unsigned med), fv_div (of_unsigned c) (of_unsigned med))"
    using assms(1,2) by (simp add: assms(5,6,7,8) norm_counts_nth)
  have 3: "0 < med \<longrightarrow> nc = (Fin (real w / real med), Fin (real c / real med))"
    by (simp add: 2 fv_div_pos_median)
  have 4: "med = 0 \<longrightarrow> nc = (if w = 0 then NaN else PInf, if c = 0 then NaN else PInf)
                       \<and> \<not> is_Fin (fst nc) \<and> \<not> is_Fin (snd nc)"
    by (simp add: 2 fv_div_zero_median)
  have 5: "median (map bin_total (counts ! i)) = 0 \<longrightarrow> med = 0"
    using exact_median_zero [of "map bin_total (counts ! i)"] by (simp add: 1)
  have 6: "med = 0 \<longrightarrow>
            length (counts ! i) \<le> 2 * length (filter (\<lambda>b. bin_total b = 0) (counts ! i))"
  proof
    assume "med = 0"
    with 1 have "to_unsigned (median (map bin_total (counts ! i))) = 0" by simp
    from median_zero_half [OF this] show
      "length (counts ! i) \<le> 2 * length (filter (\<lambda>b. bin_total b = 0) (counts ! i))"
      by (simp add: filter_map comp_def)
  qed
  from 1 2 3 4 5 6 show ?thesis by blast
qed

lemma sparse_median: "to_unsigned (median (map bin_total sparse_bins)) = 0"
  by (simp add: to_unsigned_median sparse_bins_def bin_total_def)

theorem norm_counts_division_by_median_witness:
  "median_bin_count (median_loop [sparse_bins] [0..<length [sparse_bins]] [new_CellInfo] ! 0) = 0
   \<and> norm_counts [sparse_bins]
        (median_loop [sparse_bins] [0..<length [sparse_bins]] [new_CellInfo]) 3 ! 0 ! 2 = (PInf, PInf)
   \<and> norm_counts [sparse_bins]
        (median_loop [sparse_bins] [0..<length [sparse_bins]] [new_CellInfo]) 3 ! 0 ! 0 = (NaN, NaN)
   \<and> length ([sparse_bins] ! 0) \<le> 2 * length (filter (\<lambda>b. bin_total b = 0) ([sparse_bins] ! 0))
   \<and> median_bin_count (median_loop [two_bins] [0..<length [two_bins]] [new_CellInfo] ! 0) = 1
   \<and> norm_counts [two_bins]
        (median_loop [two_bins] [0..<length [two_bins]] [new_CellInfo]) 2 ! 0 ! 1 = (Fin 1, Fin 1)"
proof -
  have i: "(0::nat) < length [sparse_bins]" and l: "length [new_CellInfo] = length [sparse_bins]"
    by simp_all
  have b2: "(2::nat) < 3" and b0: "(0::nat) < 3" by simp_all
  note h2 = norm_counts_division_by_median [OF i b2 l refl refl refl refl refl]
  note h0 = norm_counts_division_by_median [OF i b0 l refl refl refl refl refl]
  have m: "median_bin_count (median_loop [sparse_bins] [0..<length [sparse_bins]] [new_CellInfo] ! 0) = 0"
    by (simp add: sparse_median)
  from h2 m have "norm_counts [sparse_bins]
        (median_loop [sparse_bins] [0..<length [sparse_bins]] [new_CellInfo]) 3 ! 0 ! 2 =
        (if unat (watson_count ([sparse_bins] ! 0 ! 2)) = 0 then NaN else PInf,
         if unat (crick_count ([sparse_bins] ! 0 ! 2)) = 0 then NaN else PInf)"
    by blast
  also have "\<dots> = (PInf, PInf)" by (simp add: sparse_bins_def)
  finally have n2: "norm_counts [sparse_bins]
        (median_loop [sparse_bins] [0..<length [sparse_bins]] [new_CellInfo]) 3 ! 0 ! 2 = (PInf, PInf)" .
  from h0 m have "norm_counts [sparse_bins]
        (median_loop [sparse_bins] [0..<length [sparse_bins]] [new_CellInfo]) 3 ! 0 ! 0 =
        (if unat (watson_count ([sparse_bins] ! 0 ! 0)) = 0 then NaN else PInf,
         if unat (crick_count ([sparse_bins] ! 0 ! 0)) = 0 then NaN else PInf)"
    by blast
  also have "\<dots> = (NaN, NaN)" by (simp add: sparse_bins_def)
  finally have n0: "norm_counts [sparse_bins]
        (median_loop [sparse_bins] [0..<length [sparse_bins]] [new_CellInfo]) 3 ! 0 ! 0 = (NaN, NaN)" .
  from h2 m have half:
    "length ([sparse_bins] ! 0) \<le> 2 * length (filter (\<lambda>b. bin_total b = 0) ([sparse_bins] ! 0))"
    by blast
  have i': "(0::nat) < length [two_bins]" and l': "length [new_CellInfo] = length [two_bins]"
    by simp_all
  have b1: "(1::nat) < 2" by simp
  note h1 = norm_counts_division_by_median [OF i' b1 l' refl refl refl refl refl]
  have m1: "median_bin_count (median_loop [two_bins] [0..<length [two_bins]] [new_CellInfo] ! 0) = 1"
    by (simp add: two_bins_stored_median)
  then have p1: "0 < median_bin_count (median_loop [two_bins] [0..<length [two_bins]] [new_CellInfo] ! 0)"
    by simp
  from h1 p1 have "norm_counts [two_bins]
        (median_loop [two_bins] [0..<length [two_bins]] [new_CellInfo]) 2 ! 0 ! 1 =
        (Fin (real (unat (watson_count ([two_bins] ! 0 ! 1)))
              / real (median_bin_count (median_loop [two_bins] [0..<length [two_bins]] [new_CellInfo] ! 0))),
         Fin (real (unat (crick_count ([two_bins] ! 0 ! 1)))
              / real (median_bin_count (median_loop [two_bins] [0..<length [two_bins]] [new_CellInfo] ! 0))))"
    by blast
  also have "\<dots> = (Fin 1, Fin 1)" unfolding m1 by (simp add: two_bins_def)
  finally have n1: "norm_counts [two_bins]
        (median_loop [two_bins] [0..<length [two_bins]] [new_CellInfo]) 2 ! 0 ! 1 = (Fin 1, Fin 1)" .
  from m n2 n0 half m1 n1 show ?thesis by blast
qed

subsection \<open>Good and bad bins\<close>

lemma bin_means_nth:
  assumes "bin < nbins"
  shows "bin_means (norm_counts counts cells nbins) nbins ! bin =
           mean (map (\<lambda>i. fv_add
                   (fv_div (of_unsigned (unat (watson_count (counts ! i ! bin))))
                           (of_unsigned (median_bin_count (cells ! i))))
                   (fv_div (of_unsigned (unat (crick_count (counts ! i ! bin))))
                           (of_unsigned (median_bin_count (cells ! i)))))
                 [0..<length counts])"
proof -
  have "bin_samples (norm_counts counts cells nbins) bin =
          map (\<lambda>i. fv_add
                   (fv_div (of_unsigned (unat (watson_count (counts ! i ! bin))))
                           (of_unsigned (median_bin_count (cells ! i))))
                   (fv_div (of_unsigned (unat (crick_count (counts ! i ! bin))))
                           (of_unsigned (median_bin_count (cells ! i)))))
                 [0..<length counts]"
    using assms by (simp add: bin_samples_def length_norm_counts norm_counts_nth)
  then show ?thesis using assms by (simp add: bin_means_def)
qed

lemma find_good_bins_filter:
  "find_good_bins bm hi bs (good_bins, bad_bins) =
     (good_bins @ filter (\<lambda>bin. is_good (bm ! bin) hi) bs,
      bad_bins @ map (\<lambda>bin. reason (bm ! bin)) (filter (\<lambda>bin. \<not> is_good (bm ! bin) hi) bs))"
  by (induction bs arbitrary: good_bins bad_bins) simp_all

lemma filter_bins_eq:
  "filter_bins counts cells nbins =
     (let bm = bin_means (norm_counts counts cells nbins) nbins
      in (filter (\<lambda>bin. is_good (bm ! bin) (upper_limit bm)) [0..<nbins],
          map (\<lambda>bin. reason (bm ! bin))
            (filter (\<lambda>bin. \<not> is_good (bm ! bin) (upper_limit bm)) [0..<nbins])))"
  by (simp add: filter_bins_def Let_def find_good_bins_filter)

text \<open>
  C1. Let \<open>bm\<close> be the per-bin means: entry \<open>bin\<close> is the mean, across the cells, of the
  normalized Watson count plus the normalized Crick count of the bin. Let \<open>mu\<close> and
  \<open>sigma\<close> be the mean and the standard deviation of \<open>bm\<close>. A bin is among the good
  bins if and only if its mean is greater than 0.01 and less than \<open>mu + 3 * sigma\<close>;
  every other bin has one reason code in \<open>bad_bins\<close>, in bin order: \<open>l\<close> where the
  mean is at most 0.01, \<open>h\<close> otherwise. The good and the bad bins together are as
  many as the bins.
\<close>

theorem bin_filter_classification:
  assumes "filter_bins counts cells nbins = (good_bins, bad_bins)"
    and "bm = bin_means (norm_counts counts cells nbins) nbins"
    and "mu = mean bm" and "sigma = fv_sqrt (variance bm)"
  shows "(\<forall>bin<nbins.
            bm ! bin =
              mean (map (\<lambda>i. fv_add
                      (fv_div (of_unsigned (unat (watson_count (counts ! i ! bin))))
                              (of_unsigned (median_bin_count (cells ! i))))
                      (fv_div (of_unsigned (unat (crick_count (counts ! i ! bin))))
                              (of_unsigned (median_bin_count (cells ! i)))))
                    [0..<length counts])
          \<and> (bin \<in> set good_bins \<longleftrightarrow>
                fv_greater (bm ! bin) (Fin 0.01)
                \<and> fv_less (bm ! bin) (fv_add mu (fv_mul (Fin 3) sigma))))
       \<and> set good_bins \<subseteq> {0..<nbins}
       \<and> bad_bins =
           map (\<lambda>bin. if fv_le (bm ! bin) (Fin 0.01) then CHR ''l'' else CHR ''h'')
             (filter (\<lambda>bin. bin \<notin> set good_bins) [0..<nbins])
       \<and> length good_bins + length bad_bins = nbins"
proof -
  let ?good = "\<lambda>bin. is_good (bm ! bin) (upper_limit bm)"
  from assms(1,2) have g: "good_bins = filter ?good [0..<nbins]"
    and b: "bad_bins = map (\<lambda>bin. reason (bm ! bin)) (filter (\<lambda>bin. \<not> ?good bin) [0..<nbins])"
    by (simp_all add: filter_bins_eq Let_def)
  have mem: "bin \<in> set good_bins \<longleftrightarrow> bin < nbins \<and> ?good bin" for bin
    by (auto simp: g)
  have lim: "upper_limit bm = fv_add mu (fv_mul (Fin 3) sigma)"
    by (simp add: upper_limit_def my_mean_def my_sd_def assms(3,4))
  have 1: "\<forall>bin<nbins.
            bm ! bin =
              mean (map (\<lambda>i. fv_add
                      (fv_div (of_unsigned (unat (watson_count (counts ! i ! bin))))
                              (of_unsigned (median_bin_count (cells ! i))))
                      (fv_div (of_unsigned (unat (crick_count (counts ! i ! bin))))
                              (of_unsigned (median_bin_count (cells ! i)))))
                    [0..<length counts])
          \<and> (bin \<in> set good_bins \<longleftrightarrow>
                fv_greater (bm ! bin) (Fin 0.01)
                \<and> fv_less (bm ! bin) (fv_add mu (fv_mul (Fin 3) sigma)))"
    by (simp add: mem assms(2) bin_means_nth is_good_def lim [unfolded assms(2)])
  have 2: "set good_bins \<subseteq> {0..<nbins}" by (auto simp: g)
  have "filter (\<lambda>bin. \<not> ?good bin) [0..<nbins] = filter (\<lambda>bin. bin \<notin> set good_bins) [0..<nbins]"
    by (rule filter_cong) (auto simp: mem)
  then have 3: "bad_bins =
           map (\<lambda>bin. if fv_le (bm ! bin) (Fin 0.01) then CHR ''l'' else CHR ''h'')
             (filter (\<lambda>bin. bin \<notin> set good_bins) [0..<nbins])"
    by (simp add: b reason_def)
  have 4: "length good_bins + length bad_bins = nbins"
    using length_filter_partition [of ?good "[0..<nbins]"] by (simp add: g b)
  from 1 2 3 4 show ?thesis by blast
qed

lemma spread_means: "bin_means (norm_counts [spread] [cell_med 2] 2) 2 = [Fin 0, Fin 2]"
  by (simp add: bin_means_def bin_samples_def norm_counts_def upt_2 spread_def cell_med_def
      mean_def fv_sum_def of_unsigned_def)

lemma spread_limit: "upper_limit [Fin 0, Fin 2] = Fin 4"
  by (simp add: upper_limit_def my_mean_def my_sd_def mean_def variance_def fv_sum_def
      of_unsigned_def fv_sub_def)

lemma spread_filter: "filter_bins [spread] [cell_med 2] 2 = ([1], [CHR ''l''])"
  by (simp add: filter_bins_def spread_means spread_limit upt_2 is_good_def reason_def
      fv_greater_def)

theorem bin_filter_classification_witness:
  "filter_bins [spread] [cell_med 2] 2 = ([1], [CHR ''l''])
   \<and> bin_means (norm_counts [spread] [cell_med 2] 2) 2 = [Fin 0, Fin 2]
   \<and> fv_add (mean [Fin 0, Fin 2]) (fv_mul (Fin 3) (fv_sqrt (variance [Fin 0, Fin 2]))) = Fin 4
   \<and> (1 \<in> set [1::nat] \<longleftrightarrow> fv_greater (Fin 2) (Fin 0.01) \<and> fv_less (Fin 2) (Fin 4))
   \<and> (0 \<in> set [1::nat] \<longleftrightarrow> fv_greater (Fin 0) (Fin 0.01) \<and> fv_less (Fin 0) (Fin 4))
   \<and> fv_le (Fin 0) (Fin 0.01)
   \<and> length [1::nat] + length [CHR ''l''] = 2"
proof -
  note h = bin_filter_classification [OF spread_filter refl refl refl]
  have lim: "fv_add (mean [Fin 0, Fin 2]) (fv_mul (Fin 3) (fv_sqrt (variance [Fin 0, Fin 2]))) = Fin 4"
    using spread_limit by (simp add: upper_limit_def my_mean_def my_sd_def)
  have a: "1 \<in> set [1::nat] \<longleftrightarrow> fv_greater (Fin 2) (Fin 0.01) \<and> fv_less (Fin 2) (Fin 4)"
    by (simp add: fv_greater_def)
  have b: "0 \<in> set [1::nat] \<longleftrightarrow> fv_greater (Fin 0) (Fin 0.01) \<and> fv_less (Fin 0) (Fin 4)"
    by (simp add: fv_greater_def)
  from h have c: "length [1::nat] + length [CHR ''l''] = 2" by blast
  have d: "fv_le (Fin 0) (Fin 0.01)" by simp
  from spread_filter spread_means lim a b d c show ?thesis by blast
qed

subsection \<open>Chromosome indices\<close>

lemma skip_lower_ge: "pos \<le> skip_lower key len c pos"
proof (induction key len c pos rule: skip_lower.induct)
  case (1 key len c pos)
  show ?case
  proof (cases "pos < len \<and> key pos < c")
    case True
    with 1 have "Suc pos \<le> skip_lower key len c (Suc pos)" by simp
    moreover from True have "skip_lower key len c pos = skip_lower key len c (Suc pos)"
      by (subst skip_lower.simps) simp
    ultimately show ?thesis by simp
  next
    case False
    then have "skip_lower key len c pos = pos"
      by (subst skip_lower.simps) auto
    then show ?thesis by simp
  qed
qed

lemma skip_lower_le: "pos \<le> len \<Longrightarrow> skip_lower key len c pos \<le> len"
proof (induction key len c pos rule: skip_lower.induct)
  case (1 key len c pos)
  show ?case
  proof (cases "pos < len \<and> key pos < c")
    case True
    with 1 have "skip_lower key len c (Suc pos) \<le> len" by simp
    moreover from True have "skip_lower key len c pos = skip_lower key len c (Suc pos)"
      by (subst skip_lower.simps) simp
    ultimately show ?thesis by simp
  next
    case False
    then have "skip_lower key len c pos = pos"
      by (subst skip_lower.simps) auto
    with 1 show ?thesis by simp
  qed
qed

lemma length_index_loop: "length (index_loop key len cs pos m) = length m"
  by (induction cs arbitrary: pos m) (simp_all add: Let_def)

lemma index_loop_other:
  "j \<notin> set cs \<Longrightarrow> index_loop key len cs pos m ! j = m ! j"
  by (induction cs arbitrary: pos m) (simp_all add: Let_def)

lemma index_loop_Cons:
  assumes "pos \<le> len"
  shows "index_loop key len (a # cs) pos m =
           index_loop key len cs (skip_lower key len (int a) pos)
             (m[a := int (skip_lower key len (int a) pos)])"
proof -
  have "skip_lower key len (int a) pos \<le> len" using assms by (rule skip_lower_le)
  then have "(if len \<le> skip_lower key len (int a) pos then int len
              else int (skip_lower key len (int a) pos)) = int (skip_lower key len (int a) pos)"
    by simp
  then show ?thesis by (simp add: Let_def)
qed

lemma index_loop_bounds:
  assumes "pos \<le> len" and "distinct cs" and "\<forall>c \<in> set cs. c < length m" and "c \<in> set cs"
  shows "int pos \<le> index_loop key len cs pos m ! c \<and> index_loop key len cs pos m ! c \<le> int len"
  using assms
proof (induction cs arbitrary: pos m)
  case Nil
  then show ?case by simp
next
  case (Cons a cs)
  let ?p = "skip_lower key len (int a) pos"
  let ?m = "m[a := int ?p]"
  have p: "pos \<le> ?p" "?p \<le> len"
    using Cons.prems(1) by (simp_all add: skip_lower_ge skip_lower_le)
  have r: "index_loop key len (a # cs) pos m = index_loop key len cs ?p ?m"
    using Cons.prems(1) by (rule index_loop_Cons)
  show ?case
  proof (cases "c = a")
    case True
    with Cons.prems have "a \<notin> set cs" "a < length m" by auto
    then have "index_loop key len cs ?p ?m ! c = int ?p"
      using True by (simp add: index_loop_other)
    with p show ?thesis unfolding r by simp
  next
    case False
    with Cons.prems have c: "c \<in> set cs" by simp
    have d: "distinct cs" and l: "\<forall>c \<in> set cs. c < length ?m"
      using Cons.prems by simp_all
    from Cons.IH [OF p(2) d l c] p show ?thesis unfolding r by simp
  qed
qed

lemma index_loop_sorted:
  assumes "pos \<le> len" and "distinct cs" and "\<forall>c \<in> set cs. c < length m"
  shows "sorted (map (\<lambda>c. index_loop key len cs pos m ! c) cs)"
  using assms
proof (induction cs arbitrary: pos m)
  case Nil
  then show ?case by simp
next
  case (Cons a cs)
  let ?p = "skip_lower key len (int a) pos"
  let ?m = "m[a := int ?p]"
  have p: "pos \<le> ?p" "?p \<le> len"
    using Cons.prems(1) by (simp_all add: skip_lower_ge skip_lower_le)
  from Cons.prems have a: "a \<notin> set cs" "a < length m" by auto
  have d: "distinct cs" and l: "\<forall>c \<in> set cs. c < length ?m"
    using Cons.prems by simp_all
  have r: "index_loop key len (a # cs) pos m = index_loop key len cs ?p ?m"
    using Cons.prems(1) by (rule index_loop_Cons)
  have head: "index_loop key len cs ?p ?m ! a = int ?p"
    using a by (simp add: index_loop_other)
  have tail: "\<forall>c \<in> set cs. int ?p \<le> index_loop key len cs ?p ?m ! c"
    using index_loop_bounds [OF p(2) d l] by blast
  have "sorted (map (\<lambda>c. index_loop key len cs ?p ?m ! c) cs)"
    using p(2) d l by (rule Cons.IH)
  with head tail show ?case unfolding r by simp
qed

lemma index_loop_full:
  "sorted (index_loop key len [0..<n] 0 (replicate n (- 1)) @ [int len])
   \<and> length (index_loop key len [0..<n] 0 (replicate n (- 1)) @ [int len]) = Suc n
   \<and> (\<forall>c<n. 0 \<le> index_loop key len [0..<n] 0 (replicate n (- 1)) ! c)"
proof -
  let ?r = "index_loop key len [0..<n] 0 (replicate n (- 1))"
  have len: "length ?r = n" by (simp add: length_index_loop)
  have "sorted (map (\<lambda>c. ?r ! c) [0..<n])"
    by (rule index_loop_sorted) simp_all
  moreover have "map (\<lambda>c. ?r ! c) [0..<n] = ?r"
    using len by (metis map_nth)
  ultimately have s: "sorted ?r" by simp
  have b: "\<forall>c<n. 0 \<le> ?r ! c \<and> ?r ! c \<le> int len"
  proof (intro allI impI)
    fix c assume "c < n"
    then show "0 \<le> ?r ! c \<and> ?r ! c \<le> int len"
      using index_loop_bounds [of 0 len "[0..<n]" "replicate n (- 1)" c key] by simp
  qed
  then have "\<forall>x \<in> set ?r. x \<le> int len"
    using len by (auto simp: in_set_conv_nth)
  with s have "sorted (?r @ [int len])" by (simp add: sorted_append)
  with len b show ?thesis by simp
qed

text \<open>
  C9. The chromosome index of the good bins and the raw chromosome index both have one
  entry per chromosome and a last entry; the entry of chromosome \<open>c\<close> is at most the
  entry of chromosome \<open>c + 1\<close>, where the entry after the last chromosome is the last
  entry; the last entry is the number of good bins, respectively the number of all
  bins. No entry of a chromosome is negative.
\<close>

theorem chromosome_indices_monotone:
  assumes "gm = build_good_map bins good_bins n_targets"
    and "cm = build_chrom_map bins n_targets"
  shows "length gm = n_targets + 1 \<and> length cm = n_targets + 1
       \<and> (\<forall>c<n_targets. gm ! c \<le> gm ! (c + 1))
       \<and> (\<forall>c<n_targets. cm ! c \<le> cm ! (c + 1))
       \<and> gm ! n_targets = int (length good_bins)
       \<and> cm ! n_targets = int (length bins)
       \<and> (\<forall>c<n_targets. 0 \<le> gm ! c) \<and> (\<forall>c<n_targets. 0 \<le> cm ! c)"
proof -
  let ?rg = "index_loop (\<lambda>pos. chr (bins ! (good_bins ! pos))) (length good_bins)
       [0..<n_targets] 0 (replicate n_targets (- 1))"
  let ?rc = "index_loop (\<lambda>pos. chr (bins ! pos)) (length bins)
       [0..<n_targets] 0 (replicate n_targets (- 1))"
  have gm: "gm = ?rg @ [int (length good_bins)]" by (simp add: assms(1) build_good_map_def)
  have cm: "cm = ?rc @ [int (length bins)]" by (simp add: assms(2) build_chrom_map_def)
  note fg = index_loop_full [of "\<lambda>pos. chr (bins ! (good_bins ! pos))" "length good_bins" n_targets]
  note fc = index_loop_full [of "\<lambda>pos. chr (bins ! pos)" "length bins" n_targets]
  have lg: "length ?rg = n_targets" and lc: "length ?rc = n_targets"
    by (simp_all add: length_index_loop)
  have 1: "length gm = n_targets + 1" "length cm = n_targets + 1"
    using lg lc by (simp_all add: gm cm)
  have sg: "sorted gm" and sc: "sorted cm" using fg fc by (simp_all add: gm cm)
  have 2: "\<forall>c<n_targets. gm ! c \<le> gm ! (c + 1)"
    using sg 1 by (auto intro!: sorted_nth_mono)
  have 3: "\<forall>c<n_targets. cm ! c \<le> cm ! (c + 1)"
    using sc 1 by (auto intro!: sorted_nth_mono)
  have 4: "gm ! n_targets = int (length good_bins)" "cm ! n_targets = int (length bins)"
    using lg lc by (simp_all add: gm cm nth_append)
  have 5: "\<forall>c<n_targets. 0 \<le> gm ! c" "\<forall>c<n_targets. 0 \<le> cm ! c"
    using fg fc lg lc by (simp_all add: gm cm nth_append)
  from 1 2 3 4 5 show ?thesis by blast
qed

lemma three_bins_good_map: "build_good_map three_bins [0, 2] 3 = [0, 1, 1, 2]"
  by (simp add: build_good_map_def upt_3 three_bins_def skip_lower.simps Let_def
      numeral_3_eq_3 numeral_2_eq_2)

lemma three_bins_chrom_map: "build_chrom_map three_bins 3 = [0, 2, 2, 3]"
  by (simp add: build_chrom_map_def upt_3 three_bins_def skip_lower.simps Let_def
      numeral_3_eq_3 numeral_2_eq_2)

theorem chromosome_indices_monotone_witness:
  "build_good_map three_bins [0, 2] 3 = [0, 1, 1, 2]
   \<and> build_chrom_map three_bins 3 = [0, 2, 2, 3]
   \<and> build_good_map three_bins [0, 2] 3 ! 3 = int (length [0::nat, 2])
   \<and> build_chrom_map three_bins 3 ! 3 = int (length three_bins)
   \<and> length (build_good_map three_bins [0, 2] 3) = 3 + 1"
proof -
  note h = chromosome_indices_monotone [OF refl refl, of three_bins "[0, 2]" 3]
  from h have a: "build_good_map three_bins [0, 2] 3 ! 3 = int (length [0::nat, 2])" by blast
  from h have b: "build_chrom_map three_bins 3 ! 3 = int (length three_bins)" by blast
  from h have c: "length (build_good_map three_bins [0, 2] 3) = 3 + 1" by blast
  from three_bins_good_map three_bins_chrom_map a b c show ?thesis by blast
qed

subsection \<open>Estimate of p per sample\<close>

lemma good_totals_map:
  "good_totals cnt good_bins =
     map (\<lambda>g. Fin (real (unat (crick_count (cnt ! g) + watson_count (cnt ! g))))) good_bins"
  by (rule nth_equalityI) (simp_all add: good_totals_def of_unsigned_def)

lemma collect_samples_lookup:
  "collect_samples counts cells good_bins ixs samples k =
     (if filter (\<lambda>j. sample_name (cells ! j) = k) ixs = [] then samples k
      else Some ((case samples k of None \<Rightarrow> new_SampleInfo | Some s \<Rightarrow> s)
        \<lparr>means := means (case samples k of None \<Rightarrow> new_SampleInfo | Some s \<Rightarrow> s)
             @ map (\<lambda>j. mean (good_totals (counts ! j) good_bins))
                 (filter (\<lambda>j. sample_name (cells ! j) = k) ixs),
         vars := vars (case samples k of None \<Rightarrow> new_SampleInfo | Some s \<Rightarrow> s)
             @ map (\<lambda>j. variance (good_totals (counts ! j) good_bins))
                 (filter (\<lambda>j. sample_name (cells ! j) = k) ixs)\<rparr>))"
proof (induction ixs arbitrary: samples)
  case Nil
  then show ?case by simp
next
  case (Cons a ixs)
  show ?case
  proof (cases "sample_name (cells ! a) = k")
    case True
    then show ?thesis
      by (simp add: Cons.IH add_cell_def Let_def)
  next
    case False
    then show ?thesis
      by (simp add: Cons.IH add_cell_def Let_def)
  qed
qed

lemma estimate_samples_lookup:
  "estimate_samples counts cells good_bins k =
     (if filter (\<lambda>j. sample_name (cells ! j) = k) [0..<length counts] = [] then None
      else Some (fit_p
        \<lparr>means = map (\<lambda>j. mean (good_totals (counts ! j) good_bins))
                   (filter (\<lambda>j. sample_name (cells ! j) = k) [0..<length counts]),
         vars = map (\<lambda>j. variance (good_totals (counts ! j) good_bins))
                   (filter (\<lambda>j. sample_name (cells ! j) = k) [0..<length counts]),
         p' = Fin 0\<rparr>))"
  by (simp add: estimate_samples_def estimate_p_def collect_samples_lookup new_SampleInfo_def)

text \<open>
  C2. For the sample of any retained cell \<open>i\<close>, let \<open>members\<close> be the cells of that
  sample in cell order. The sample has an entry whose means and variances are the
  mean and the variance, per member cell, of the sums Crick count + Watson count over
  the good bins only, and whose \<open>p\<close> is the quotient of the inner product of the
  means with themselves by the inner product of the means with the variances. With
  at least one good bin the means and variances are finite and
  \<open>p = (\<Sum> m\<^sub>j\<^sup>2) / (\<Sum> m\<^sub>j v\<^sub>j)\<close>, the division being that of the machine. The
  fit is one expression, and a sample of a single cell has it as well.
\<close>

theorem sample_p_method_of_moments:
  assumes "i < length counts"
    and "members = filter (\<lambda>j. sample_name (cells ! j) = sample_name (cells ! i)) [0..<length counts]"
    and "ms = map (\<lambda>j. mean (good_totals (counts ! j) good_bins)) members"
    and "vs = map (\<lambda>j. variance (good_totals (counts ! j) good_bins)) members"
    and "tot = (\<lambda>j g. real (unat (crick_count (counts ! j ! g) + watson_count (counts ! j ! g))))"
    and "m = (\<lambda>j. (\<Sum>g\<leftarrow>good_bins. tot j g) / real (length good_bins))"
    and "v = (\<lambda>j. (\<Sum>g\<leftarrow>good_bins. tot j g * tot j g) / real (length good_bins) - m j * m j)"
  shows "i \<in> set members
       \<and> (\<exists>s. estimate_samples counts cells good_bins (sample_name (cells ! i)) = Some s
              \<and> means s = ms \<and> vars s = vs
              \<and> p' s = fv_div (inner_product ms ms (Fin 0)) (inner_product ms vs (Fin 0))
              \<and> (good_bins \<noteq> [] \<longrightarrow>
                    ms = map (\<lambda>j. Fin (m j)) members \<and> vs = map (\<lambda>j. Fin (v j)) members
                    \<and> p' s = fv_div (Fin (\<Sum>j\<leftarrow>members. m j * m j))
                                    (Fin (\<Sum>j\<leftarrow>members. m j * v j))))"
proof -
  have mem: "i \<in> set members" using assms(1) by (simp add: assms(2))
  then have ne: "members \<noteq> []" by auto
  let ?s = "fit_p \<lparr>means = ms, vars = vs, p' = Fin 0\<rparr>"
  have s: "estimate_samples counts cells good_bins (sample_name (cells ! i)) = Some ?s"
    using ne by (simp add: estimate_samples_lookup assms(2,3,4))
  have ms: "means ?s = ms" and vs: "vars ?s = vs"
    and p: "p' ?s = fv_div (inner_product ms ms (Fin 0)) (inner_product ms vs (Fin 0))"
    by (simp_all add: fit_p_def)
  have fin: "good_bins \<noteq> [] \<longrightarrow>
                    ms = map (\<lambda>j. Fin (m j)) members \<and> vs = map (\<lambda>j. Fin (v j)) members
                    \<and> p' ?s = fv_div (Fin (\<Sum>j\<leftarrow>members. m j * m j))
                                    (Fin (\<Sum>j\<leftarrow>members. m j * v j))"
  proof
    assume g: "good_bins \<noteq> []"
    have mj: "mean (good_totals (counts ! j) good_bins) = Fin (m j)" for j
      unfolding good_totals_map assms(5,6) using g by (rule mean_Fin)
    have vj: "variance (good_totals (counts ! j) good_bins) = Fin (v j)" for j
      unfolding good_totals_map assms(5,6,7) using g by (rule variance_Fin)
    have a: "ms = map (\<lambda>j. Fin (m j)) members" and b: "vs = map (\<lambda>j. Fin (v j)) members"
      by (simp_all only: assms(3,4) mj vj)
    have "inner_product ms ms (Fin 0) = Fin (\<Sum>j\<leftarrow>members. m j * m j)"
      unfolding a by (simp only: inner_product_Fin) simp
    moreover have "inner_product ms vs (Fin 0) = Fin (\<Sum>j\<leftarrow>members. m j * v j)"
      unfolding a b by (simp only: inner_product_Fin) simp
    ultimately show "ms = map (\<lambda>j. Fin (m j)) members \<and> vs = map (\<lambda>j. Fin (v j)) members
                    \<and> p' ?s = fv_div (Fin (\<Sum>j\<leftarrow>members. m j * m j))
                                    (Fin (\<Sum>j\<leftarrow>members. m j * v j))"
      using a b p by simp
  qed
  from mem s ms vs p fin show ?thesis by blast
qed

lemma dispersed_totals: "good_totals dispersed [0, 1] = [Fin 1, Fin 9]"
  by (simp add: good_totals_def upt_2 dispersed_def of_unsigned_def)

lemma dispersed_mean: "mean (good_totals dispersed [0, 1]) = Fin 5"
  unfolding dispersed_totals by (simp add: mean_def fv_sum_def of_unsigned_def)

lemma dispersed_variance: "variance (good_totals dispersed [0, 1]) = Fin 16"
  unfolding dispersed_totals by (simp add: mean_def variance_def fv_sum_def of_unsigned_def fv_sub_def)

lemma dispersed_members:
  "filter (\<lambda>j. sample_name ([cell_D] ! j) = sample_name ([cell_D] ! 0)) [0..<length [dispersed]] = [0]"
  by simp

lemma dispersed_fit:
  "fv_div (inner_product [Fin 5] [Fin 5] (Fin 0)) (inner_product [Fin 5] [Fin 16] (Fin 0))
     = Fin (5 / 16)"
  by (simp add: inner_product_def)

theorem sample_p_method_of_moments_witness:
  "sample_p (estimate_samples [dispersed] [cell_D] [0, 1]) (sample_name ([cell_D] ! 0)) = Fin (5 / 16)"
proof -
  have i: "(0::nat) < length [dispersed]" by simp
  note h = sample_p_method_of_moments [where counts = "[dispersed]" and i = 0
      and cells = "[cell_D]" and good_bins = "[0, 1]", OF i refl refl refl refl refl refl]
  then obtain s where s: "estimate_samples [dispersed] [cell_D] [0, 1] (sample_name ([cell_D] ! 0)) = Some s"
    and p: "p' s = fv_div
       (inner_product
          (map (\<lambda>j. mean (good_totals ([dispersed] ! j) [0, 1]))
             (filter (\<lambda>j. sample_name ([cell_D] ! j) = sample_name ([cell_D] ! 0)) [0..<length [dispersed]]))
          (map (\<lambda>j. mean (good_totals ([dispersed] ! j) [0, 1]))
             (filter (\<lambda>j. sample_name ([cell_D] ! j) = sample_name ([cell_D] ! 0)) [0..<length [dispersed]]))
          (Fin 0))
       (inner_product
          (map (\<lambda>j. mean (good_totals ([dispersed] ! j) [0, 1]))
             (filter (\<lambda>j. sample_name ([cell_D] ! j) = sample_name ([cell_D] ! 0)) [0..<length [dispersed]]))
          (map (\<lambda>j. variance (good_totals ([dispersed] ! j) [0, 1]))
             (filter (\<lambda>j. sample_name ([cell_D] ! j) = sample_name ([cell_D] ! 0)) [0..<length [dispersed]]))
          (Fin 0))"
    by blast
  have "p' s = Fin (5 / 16)"
    unfolding p dispersed_members
    by (simp only: list.map nth_Cons_0 dispersed_mean dispersed_variance dispersed_fit)
  with s show ?thesis by (simp only: sample_p_def option.case)
qed

subsection \<open>Set-up of the hidden Markov model\<close>

lemma p_trans_pos: "0 < nbins \<Longrightarrow> p_trans nbins = Fin (10 / real nbins)"
  by (simp add: p_trans_def of_unsigned_def)

lemma stay_pos: "0 < nbins \<Longrightarrow> stay nbins = Fin (1 - 2 * (10 / real nbins))"
  by (simp add: stay_def p_trans_pos fv_sub_def)

lemma transitions_setup:
  "transitions (setup_hmm nbins) =
     [stay nbins, p_trans nbins, p_trans nbins,
      p_trans nbins, stay nbins, p_trans nbins,
      p_trans nbins, p_trans nbins, stay nbins]"
  by (simp add: setup_hmm_def set_transitions_def set_initials_def new_HMM_def)

lemma initials_setup: "initials (setup_hmm nbins) = [Fin 0.3333, Fin 0.3333, Fin 0.3333]"
  by (simp add: setup_hmm_def set_transitions_def set_initials_def new_HMM_def)

lemma entry_setup:
  assumes "r < 3" and "c < 3"
  shows "entry (setup_hmm nbins) r c = (if r = c then stay nbins else p_trans nbins)"
proof -
  from assms have "r = 0 \<or> r = 1 \<or> r = 2" and "c = 0 \<or> c = 1 \<or> c = 2" by auto
  then show ?thesis
    by (auto simp: entry_def transitions_setup)
qed

text \<open>
  C7, as the code has it. For a run with at least one bin, every off-diagonal entry of
  the transition matrix is \<open>p_trans = 10 / total bin count\<close>, every diagonal entry is
  \<open>1 - 2 * p_trans\<close>, and every row sums to 1. The entries are all non-negative exactly
  when there are at least 20 bins. The initial-state distribution has length 3; its
  entries are 0.3333 each and sum to 0.9999.
\<close>

theorem hmm_setup:
  assumes "0 < nbins"
  shows "(\<forall>r<3. \<forall>c<3. entry (setup_hmm nbins) r c =
            (if r = c then Fin (1 - 2 * (10 / real nbins)) else Fin (10 / real nbins)))
       \<and> (\<forall>r<3. row_sum (setup_hmm nbins) r = Fin 1)
       \<and> ((\<forall>r<3. \<forall>c<3. fv_le (Fin 0) (entry (setup_hmm nbins) r c)) \<longleftrightarrow> 20 \<le> nbins)
       \<and> length (transitions (setup_hmm nbins)) = 9
       \<and> initials (setup_hmm nbins) = [Fin 0.3333, Fin 0.3333, Fin 0.3333]
       \<and> fv_sum (initials (setup_hmm nbins)) = Fin 0.9999"
proof (intro conjI)
  show e: "\<forall>r<3. \<forall>c<3. entry (setup_hmm nbins) r c =
            (if r = c then Fin (1 - 2 * (10 / real nbins)) else Fin (10 / real nbins))"
    using assms by (simp add: entry_setup stay_pos p_trans_pos)
  show "\<forall>r<3. row_sum (setup_hmm nbins) r = Fin 1"
  proof (intro allI impI)
    fix r :: nat assume "r < 3"
    then have "r = 0 \<or> r = 1 \<or> r = 2" by auto
    then show "row_sum (setup_hmm nbins) r = Fin 1"
      using assms by (auto simp: row_sum_def fv_sum_def entry_setup stay_pos p_trans_pos)
  qed
  show "(\<forall>r<3. \<forall>c<3. fv_le (Fin 0) (entry (setup_hmm nbins) r c)) \<longleftrightarrow> 20 \<le> nbins"
  proof
    assume a: "\<forall>r<3. \<forall>c<3. fv_le (Fin 0) (entry (setup_hmm nbins) r c)"
    then have "fv_le (Fin 0) (entry (setup_hmm nbins) 0 0)" by simp
    then have "0 \<le> 1 - 2 * (10 / real nbins)"
      using assms by (simp add: entry_setup stay_pos)
    then have "20 \<le> real nbins" using assms by (simp add: field_simps)
    then show "20 \<le> nbins" by simp
  next
    assume "20 \<le> nbins"
    then have "20 \<le> real nbins" by simp
    then have "0 \<le> 1 - 2 * (10 / real nbins)" using assms by (simp add: field_simps)
    then show "\<forall>r<3. \<forall>c<3. fv_le (Fin 0) (entry (setup_hmm nbins) r c)"
      using assms by (simp add: entry_setup stay_pos p_trans_pos)
  qed
  show "length (transitions (setup_hmm nbins)) = 9" by (simp add: transitions_setup)
  show "initials (setup_hmm nbins) = [Fin 0.3333, Fin 0.3333, Fin 0.3333]"
    by (rule initials_setup)
  show "fv_sum (initials (setup_hmm nbins)) = Fin 0.9999"
    by (simp add: initials_setup fv_sum_def)
qed

theorem hmm_setup_witness:
  "entry (setup_hmm 40) 0 0 = Fin (1 / 2) \<and> entry (setup_hmm 40) 0 1 = Fin (1 / 4)
   \<and> row_sum (setup_hmm 40) 2 = Fin 1
   \<and> fv_le (Fin 0) (entry (setup_hmm 40) 1 1)
   \<and> fv_sum (initials (setup_hmm 40)) = Fin 0.9999"
proof -
  have pos: "(0::nat) < 40" by simp
  note h = hmm_setup [OF pos]
  have a: "entry (setup_hmm 40) 0 0 = Fin (1 / 2)" using h by simp
  have b: "entry (setup_hmm 40) 0 1 = Fin (1 / 4)" using h by simp
  have c: "row_sum (setup_hmm 40) 2 = Fin 1" using h by simp
  have d: "fv_le (Fin 0) (entry (setup_hmm 40) 1 1)" using h by simp
  have e: "fv_sum (initials (setup_hmm 40)) = Fin 0.9999" using h by blast
  from a b c d e show ?thesis by simp
qed

text \<open>
  With 10 bins the diagonal entries are \<open>-1\<close>; and the initial-state distribution
  does not sum to 1.
\<close>

theorem hmm_setup_counterexample:
  "fv_sum (initials (setup_hmm 10)) \<noteq> Fin 1
   \<and> entry (setup_hmm 10) 0 0 = Fin (- 1)
   \<and> \<not> fv_le (Fin 0) (entry (setup_hmm 10) 0 0)"
  by (simp add: initials_setup fv_sum_def entry_def transitions_setup stay_def p_trans_def
      of_unsigned_def fv_sub_def)

subsection \<open>Decode of every cell\<close>

lemma decode_loop_err:
  "snd (snd (decode_loop env samples cells good_bins good_map ixs (hmm, counts, err))) = err"
  by (induction ixs arbitrary: hmm counts) (simp_all add: Let_def)

lemma length_decode_loop:
  "length (fst (snd (decode_loop env samples cells good_bins good_map ixs (hmm, counts, err))))
     = length counts"
  by (induction ixs arbitrary: hmm counts) (simp_all add: Let_def)

lemma decode_loop_nth:
  assumes "distinct ixs" and "i < length counts"
  shows "fst (snd (decode_loop env samples cells good_bins good_map ixs (hmm, counts, err))) ! i =
           (if i \<in> set ixs
            then run_HMM env
                   (hmm\<lparr>emissions := cell_emissions (sample_p samples (sample_name (cells ! i)))
                                         (median_bin_count (cells ! i))\<rparr>)
                   (counts ! i) good_bins good_map
            else counts ! i)"
  using assms
proof (induction ixs arbitrary: hmm counts)
  case Nil
  then show ?case by simp
next
  case (Cons a ixs)
  let ?h = "set_emissions (cell_emissions (sample_p samples (sample_name (cells ! a)))
                             (median_bin_count (cells ! a))) hmm"
  let ?c = "counts[a := run_HMM env ?h (counts ! a) good_bins good_map]"
  from Cons.prems have d: "distinct ixs" and a: "a \<notin> set ixs" and l: "i < length ?c" by simp_all
  have step: "decode_loop env samples cells good_bins good_map (a # ixs) (hmm, counts, err) =
              decode_loop env samples cells good_bins good_map ixs (?h, ?c, err)"
    by (simp add: Let_def)
  have h: "?h\<lparr>emissions := e\<rparr> = hmm\<lparr>emissions := e\<rparr>" for e
    by (simp add: set_emissions_def)
  show ?case
  proof (cases "i = a")
    case True
    with a Cons.prems(2) show ?thesis
      unfolding step Cons.IH [OF d l] by (simp add: set_emissions_def)
  next
    case False
    then show ?thesis
      unfolding step Cons.IH [OF d l] by (simp add: h)
  qed
qed

lemma decoding_err: "snd (snd (decoding env bins n_targets cells counts err)) = err"
  by (simp add: decoding_def Let_def decode_loop_err)

lemma length_decoding:
  "length (fst (snd (decoding env bins n_targets cells counts err))) = length counts"
  by (simp add: decoding_def Let_def length_decode_loop)

lemma decoding_nth:
  assumes "i < length counts"
  shows "fst (snd (decoding env bins n_targets cells counts err)) ! i =
           run_HMM env
             ((setup_hmm (length bins))\<lparr>emissions :=
                cell_emissions
                  (sample_p (estimate_samples counts cells (fst (filter_bins counts cells (length bins))))
                     (sample_name (cells ! i)))
                  (median_bin_count (cells ! i))\<rparr>)
             (counts ! i) (fst (filter_bins counts cells (length bins)))
             (build_good_map bins (fst (filter_bins counts cells (length bins))) n_targets)"
  using assms by (simp add: decoding_def Let_def decode_loop_nth)

text \<open>
  C3. The decode of every retained cell \<open>i\<close> is run with the emissions set to three
  pairs of negative binomials, all with the \<open>p\<close> of the sample of the cell:
  (\<open>2n\<close>, \<open>z\<close>) for CC, (\<open>n\<close>, \<open>n\<close>) for WC and (\<open>z\<close>, \<open>2n\<close>) for WW, where
  \<open>n = median_bin_count / 2 * p / (1 - p)\<close> and \<open>z = 0.5\<close> for every cell. The first
  distribution of a pair is the one the spec calls the Crick channel. Initial
  distribution and transitions are the ones of the set-up.
\<close>

theorem emissions_before_decode:
  assumes "i < length counts"
    and "good_bins = fst (filter_bins counts cells (length bins))"
    and "good_map = build_good_map bins good_bins n_targets"
    and "p = sample_p (estimate_samples counts cells good_bins) (sample_name (cells ! i))"
    and "n = fv_div (fv_mul (fv_div (of_unsigned (median_bin_count (cells ! i))) (Fin 2)) p)
                    (fv_sub (Fin 1) p)"
    and "z = Fin 0.5"
  shows "fst (snd (decoding env bins n_targets cells counts err)) ! i =
           run_HMM env
             ((setup_hmm (length bins))\<lparr>emissions :=
                [[NegativeBinomial p (fv_mul (Fin 2) n), NegativeBinomial p z],
                 [NegativeBinomial p n, NegativeBinomial p n],
                 [NegativeBinomial p z, NegativeBinomial p (fv_mul (Fin 2) n)]]\<rparr>)
             (counts ! i) good_bins good_map
       \<and> (\<exists>s. estimate_samples counts cells good_bins (sample_name (cells ! i)) = Some s \<and> p = p' s)
       \<and> (\<forall>q. p = Fin q \<and> q \<noteq> 1 \<longrightarrow>
              n = Fin (real (median_bin_count (cells ! i)) / 2 * q / (1 - q)))"
proof -
  have 1: "fst (snd (decoding env bins n_targets cells counts err)) ! i =
           run_HMM env
             ((setup_hmm (length bins))\<lparr>emissions :=
                [[NegativeBinomial p (fv_mul (Fin 2) n), NegativeBinomial p z],
                 [NegativeBinomial p n, NegativeBinomial p n],
                 [NegativeBinomial p z, NegativeBinomial p (fv_mul (Fin 2) n)]]\<rparr>)
             (counts ! i) good_bins good_map"
    using assms(1) by (simp add: decoding_nth cell_emissions_def nb_n_def Let_def assms(2-6))
  have "filter (\<lambda>j. sample_name (cells ! j) = sample_name (cells ! i)) [0..<length counts] \<noteq> []"
    using assms(1) by (auto simp: filter_empty_conv)
  then have 2: "\<exists>s. estimate_samples counts cells good_bins (sample_name (cells ! i)) = Some s \<and> p = p' s"
    by (simp add: assms(4) sample_p_def estimate_samples_lookup)
  have 3: "\<forall>q. p = Fin q \<and> q \<noteq> 1 \<longrightarrow>
              n = Fin (real (median_bin_count (cells ! i)) / 2 * q / (1 - q))"
    by (simp add: assms(5) of_unsigned_def fv_sub_def)
  from 1 2 3 show ?thesis by blast
qed

lemma dispersed_means:
  "bin_means (norm_counts [dispersed] [cell_D] 2) 2 = [Fin (1 / 5), Fin (9 / 5)]"
  by (simp add: bin_means_def bin_samples_def norm_counts_def upt_2 dispersed_def cell_D_def
      mean_def fv_sum_def of_unsigned_def)

lemma dispersed_limit: "upper_limit [Fin (1 / 5), Fin (9 / 5)] = Fin (17 / 5)"
proof -
  have "variance [Fin (1 / 5), Fin (9 / 5)] = Fin (16 / 25)"
    by (simp add: mean_def variance_def fv_sum_def of_unsigned_def fv_sub_def)
  then show ?thesis
    by (simp add: upper_limit_def my_mean_def my_sd_def mean_def fv_sum_def of_unsigned_def
        sqrt_16_25)
qed

lemma dispersed_filter:
  "filter_bins [dispersed] [cell_D] (length two_intervals) = ([0, 1], [])"
proof -
  have "length two_intervals = 2" by (simp add: two_intervals_def)
  then show ?thesis
    by (simp add: filter_bins_def dispersed_means dispersed_limit upt_2 is_good_def fv_greater_def)
qed

lemma dispersed_good: "fst (filter_bins [dispersed] [cell_D] (length two_intervals)) = [0, 1]"
  by (simp only: dispersed_filter fst_conv)

lemma dispersed_p:
  "sample_p (estimate_samples [dispersed] [cell_D] [0, 1]) (sample_name ([cell_D] ! 0)) = Fin (5 / 16)"
  by (simp add: sample_p_def estimate_samples_lookup fit_p_def dispersed_mean [unfolded One_nat_def]
      dispersed_variance [unfolded One_nat_def] inner_product_def)

lemma dispersed_n:
  "fv_div (fv_mul (fv_div (of_unsigned (median_bin_count ([cell_D] ! 0))) (Fin 2)) (Fin (5 / 16)))
     (fv_sub (Fin 1) (Fin (5 / 16))) = Fin (25 / 22)"
  by (simp add: cell_D_def of_unsigned_def fv_sub_def)

lemma two_intervals_good_map: "build_good_map two_intervals [0, 1] 1 = [0, 2]"
  by (simp add: build_good_map_def two_intervals_def skip_lower.simps Let_def)

theorem emissions_before_decode_witness:
  "fst (snd (decoding example_env two_intervals 1 [cell_D] [dispersed] [])) ! 0 =
     label_all
       ((setup_hmm (length two_intervals))\<lparr>emissions :=
          [[NegativeBinomial (Fin (5 / 16)) (Fin (25 / 11)), NegativeBinomial (Fin (5 / 16)) (Fin (1 / 2))],
           [NegativeBinomial (Fin (5 / 16)) (Fin (25 / 22)), NegativeBinomial (Fin (5 / 16)) (Fin (25 / 22))],
           [NegativeBinomial (Fin (5 / 16)) (Fin (1 / 2)), NegativeBinomial (Fin (5 / 16)) (Fin (25 / 11))]]\<rparr>)
       dispersed [0, 1] [0, 2]"
proof -
  have i: "(0::nat) < length [dispersed]" by simp
  note h = emissions_before_decode [where counts = "[dispersed]" and i = 0
      and cells = "[cell_D]" and bins = two_intervals and n_targets = 1 and env = example_env
      and err = "[]", OF i refl refl refl refl refl]
  have r: "run_HMM example_env = label_all" by (simp add: example_env_def)
  have d: "[dispersed] ! 0 = dispersed" by simp
  have m: "fv_mul (Fin 2) (Fin (25 / 22)) = Fin (25 / 11)" by simp
  have z: "Fin 0.5 = Fin (1 / 2)" by simp
  from h [THEN conjunct1] show ?thesis
    unfolding dispersed_good dispersed_p dispersed_n two_intervals_good_map r d m z .
qed

subsection \<open>Counting, and the run as a whole\<close>

lemma length_header_scan:
  "header_scan env f_in ixs cells = Inr cells0 \<Longrightarrow> length cells0 = length cells"
proof (induction ixs arbitrary: cells)
  case Nil
  then show ?case by simp
next
  case (Cons i ixs)
  then show ?case by (auto split: if_splits option.splits)
qed

lemma erase_append: "length xs = i \<Longrightarrow> erase (xs @ y # ys) i = xs @ ys"
  by (simp add: erase_def)

lemma count_loop_survivors:
  assumes "i_f \<le> length f_in" and "length pc = i" and "length pk = i"
    and "length tc = length f_in - i_f" and "length tk = length f_in - i_f"
  shows "count_loop env f_in bins cm i i_f (pc @ tc, pk @ tk, err) =
           (pc @ map fst (survivors env bins cm (zip (drop i_f f_in) tc)),
            pk @ map snd (survivors env bins cm (zip (drop i_f f_in) tc)),
            err @ map IgnoringCell (unreadable env bins cm (zip (drop i_f f_in) tc)))"
  using assms
proof (induction "length f_in - i_f" arbitrary: i i_f pc pk tc tk err)
  case 0
  then have "\<not> i_f < length f_in" and "tc = []" and "tk = []" by simp_all
  then show ?case by (subst count_loop.simps) simp
next
  case (Suc n)
  then have lt: "i_f < length f_in" by simp
  with Suc.prems obtain c tc' where tc: "tc = c # tc'"
    by (cases tc) simp_all
  from lt Suc.prems obtain k tk' where tk: "tk = k # tk'"
    by (cases tk) simp_all
  have dr: "drop i_f f_in = f_in ! i_f # drop (Suc i_f) f_in"
    using lt by (simp add: Cons_nth_drop_Suc)
  have nth: "(pc @ tc) ! i = c" using Suc.prems(2) by (simp add: tc nth_append)
  have n: "n = length f_in - Suc i_f" using Suc.hyps(2) by simp
  have le: "Suc i_f \<le> length f_in" using lt by simp
  have ltc: "length tc' = length f_in - Suc i_f" "length tk' = length f_in - Suc i_f"
    using Suc.prems(4,5) by (simp_all add: tc tk)
  show ?case
  proof (cases "count_sorted_reads env (f_in ! i_f) bins cm c")
    case None
    have "count_loop env f_in bins cm i i_f (pc @ tc, pk @ tk, err) =
          count_loop env f_in bins cm i (Suc i_f)
            (pc @ tc', pk @ tk', err @ [IgnoringCell (f_in ! i_f)])"
      using lt None nth Suc.prems(2,3)
      by (subst count_loop.simps) (simp add: tc tk erase_append)
    also have "\<dots> =
           (pc @ map fst (survivors env bins cm (zip (drop (Suc i_f) f_in) tc')),
            pk @ map snd (survivors env bins cm (zip (drop (Suc i_f) f_in) tc')),
            (err @ [IgnoringCell (f_in ! i_f)])
              @ map IgnoringCell (unreadable env bins cm (zip (drop (Suc i_f) f_in) tc')))"
      using n le Suc.prems(2,3) ltc by (rule Suc.hyps(1))
    finally show ?thesis using None by (simp add: dr tc)
  next
    case (Some r)
    obtain cnt cell where r: "r = (cnt, cell)" by (cases r)
    have "count_loop env f_in bins cm i i_f (pc @ tc, pk @ tk, err) =
          count_loop env f_in bins cm (Suc i) (Suc i_f)
            ((pc @ [cell]) @ tc', (pk @ [cnt]) @ tk', err)"
      using lt Some r nth Suc.prems(2,3)
      by (subst count_loop.simps) (simp add: tc tk list_update_append)
    also have "\<dots> =
           ((pc @ [cell]) @ map fst (survivors env bins cm (zip (drop (Suc i_f) f_in) tc')),
            (pk @ [cnt]) @ map snd (survivors env bins cm (zip (drop (Suc i_f) f_in) tc')),
            err @ map IgnoringCell (unreadable env bins cm (zip (drop (Suc i_f) f_in) tc')))"
      using n le _ _ ltc by (rule Suc.hyps(1)) (simp_all add: Suc.prems(2,3))
    finally show ?thesis using Some r by (simp add: dr tc)
  qed
qed

lemma counting_survivors:
  assumes "length cells0 = length f_in"
  shows "counting env f_in bins n_targets cells0 =
           (map fst (survivors env bins (build_chrom_map bins n_targets) (zip f_in cells0)),
            map snd (survivors env bins (build_chrom_map bins n_targets) (zip f_in cells0)),
            map IgnoringCell (unreadable env bins (build_chrom_map bins n_targets) (zip f_in cells0)))"
  using count_loop_survivors [of 0 f_in "[]" 0 "[]" cells0 "replicate (length f_in) []"
      env bins "build_chrom_map bins n_targets" "[]"] assms
  by (simp add: counting_def)

lemma main_unfold:
  assumes "header_scan env f_in [0..<length f_in] (replicate (length f_in) new_CellInfo) = Inr cells0"
    and "counting env f_in bins n_targets cells0 = (cells1, counts1, err1)"
    and "cells2 = median_loop counts1 [0..<length counts1] cells1"
    and "counts2 = fst (snd (decoding env bins n_targets cells2 counts1 err1))"
  shows "main env f_in bins n_targets =
           (if out_is_open env
            then \<lparr>exit_code = 0, diagnostics = err1,
                  table = Some (table_header, table_rows env f_in bins cells2 counts2)\<rparr>
            else \<lparr>exit_code = 2, diagnostics = err1 @ [CannotOpenOut], table = None\<rparr>)"
proof -
  obtain h c e where d: "decoding env bins n_targets cells2 counts1 err1 = (h, c, e)"
    by (cases "decoding env bins n_targets cells2 counts1 err1") auto
  have "e = err1" using decoding_err [of env bins n_targets cells2 counts1 err1] d by simp
  moreover have "c = counts2" using d by (simp add: assms(4))
  ultimately show ?thesis
    using assms(1,2) d by (simp add: main_def Let_def assms(3))
qed

text \<open>
  C8. After a header scan that passed, the counting loop leaves exactly the cells whose
  file the reader could read, each with its own counters, in the order of the input
  files: \<open>cells\<close> and \<open>counts\<close> keep the same length and the same order. For every
  file the reader failed on there is one warning that names the file, and nothing
  else is written to the error stream. The failure of a reader never changes the exit
  code of the run, which is 0 if the count table can be opened and 2 otherwise.
\<close>

theorem unreadable_cells_are_dropped:
  assumes "header_scan env f_in [0..<length f_in] (replicate (length f_in) new_CellInfo) = Inr cells0"
    and "cm = build_chrom_map bins n_targets"
    and "counting env f_in bins n_targets cells0 = (cells1, counts1, err1)"
  shows "cells1 = map fst (survivors env bins cm (zip f_in cells0))
       \<and> counts1 = map snd (survivors env bins cm (zip f_in cells0))
       \<and> length cells1 = length counts1
       \<and> err1 = map IgnoringCell (unreadable env bins cm (zip f_in cells0))
       \<and> length cells1 + length err1 = length f_in
       \<and> exit_code (main env f_in bins n_targets) = (if out_is_open env then 0 else 2)
       \<and> (out_is_open env \<longrightarrow> diagnostics (main env f_in bins n_targets) = err1)"
proof -
  have len: "length cells0 = length f_in"
    using length_header_scan [OF assms(1)] by simp
  note c = counting_survivors [OF len, of env bins n_targets]
  from c assms(3) have 1: "cells1 = map fst (survivors env bins cm (zip f_in cells0))"
    and 2: "counts1 = map snd (survivors env bins cm (zip f_in cells0))"
    and 3: "err1 = map IgnoringCell (unreadable env bins cm (zip f_in cells0))"
    by (simp_all add: assms(2))
  have 4: "length cells1 = length counts1" by (simp add: 1 2)
  have "length (survivors env bins cm xs) + length (unreadable env bins cm xs) = length xs" for xs
    by (induction xs) (auto split: option.splits)
  from this [of "zip f_in cells0"] have 5: "length cells1 + length err1 = length f_in"
    by (simp add: 1 3 len)
  note m = main_unfold [OF assms(1,3) refl refl]
  have 6: "exit_code (main env f_in bins n_targets) = (if out_is_open env then 0 else 2)"
    by (simp add: m)
  have 7: "out_is_open env \<longrightarrow> diagnostics (main env f_in bins n_targets) = err1"
    by (simp add: m)
  from 1 2 4 3 5 6 7 show ?thesis by blast
qed

lemma example_header:
  "header_scan example_env [''a.bam'', ''b.bam''] [0..<length [''a.bam'', ''b.bam'']]
     (replicate (length [''a.bam'', ''b.bam'']) new_CellInfo) = Inr [cell_A, cell_B]"
  by (simp add: upt_2 example_env_def cell_A_def cell_B_def numeral_2_eq_2)

lemma example_counting:
  "counting example_env [''a.bam'', ''b.bam''] two_intervals 1 [cell_A, cell_B] =
     ([cell_B\<lparr>n_mapped := 6, n_counted := 6\<rparr>], [balanced], [IgnoringCell ''a.bam''])"
  by (simp add: counting_def count_loop.simps example_env_def reader_def erase_def numeral_2_eq_2)

theorem unreadable_cells_are_dropped_witness:
  "counting example_env [''a.bam'', ''b.bam''] two_intervals 1 [cell_A, cell_B] =
     ([cell_B\<lparr>n_mapped := 6, n_counted := 6\<rparr>], [balanced], [IgnoringCell ''a.bam''])
   \<and> [cell_B\<lparr>n_mapped := 6, n_counted := 6\<rparr>] =
       map fst (survivors example_env two_intervals (build_chrom_map two_intervals 1)
                  (zip [''a.bam'', ''b.bam''] [cell_A, cell_B]))
   \<and> [balanced] =
       map snd (survivors example_env two_intervals (build_chrom_map two_intervals 1)
                  (zip [''a.bam'', ''b.bam''] [cell_A, cell_B]))
   \<and> exit_code (main example_env [''a.bam'', ''b.bam''] two_intervals 1) = 0
   \<and> diagnostics (main example_env [''a.bam'', ''b.bam''] two_intervals 1) = [IgnoringCell ''a.bam'']"
proof -
  note h = unreadable_cells_are_dropped [OF example_header refl example_counting]
  have o: "out_is_open example_env" by (simp add: example_env_def)
  from h have 1: "[cell_B\<lparr>n_mapped := 6, n_counted := 6\<rparr>] =
       map fst (survivors example_env two_intervals (build_chrom_map two_intervals 1)
                  (zip [''a.bam'', ''b.bam''] [cell_A, cell_B]))" by blast
  from h have 2: "[balanced] =
       map snd (survivors example_env two_intervals (build_chrom_map two_intervals 1)
                  (zip [''a.bam'', ''b.bam''] [cell_A, cell_B]))" by blast
  from h have "exit_code (main example_env [''a.bam'', ''b.bam''] two_intervals 1)
                 = (if out_is_open example_env then 0 else 2)" by blast
  with o have 3: "exit_code (main example_env [''a.bam'', ''b.bam''] two_intervals 1) = 0"
    by simp
  from h o have 4: "diagnostics (main example_env [''a.bam'', ''b.bam''] two_intervals 1)
                 = [IgnoringCell ''a.bam'']" by blast
  from example_counting 1 2 3 4 show ?thesis by blast
qed

lemma balanced_median: "to_unsigned (median (map bin_total balanced)) = 3"
  by (simp add: to_unsigned_median balanced_def bin_total_def)

lemma example_median:
  "median_loop [balanced] [0..<length [balanced]] [cell_B\<lparr>n_mapped := 6, n_counted := 6\<rparr>] =
     [cell_B\<lparr>n_mapped := 6, n_counted := 6, median_bin_count := 3\<rparr>]"
  by (simp add: balanced_median)

lemma example_means:
  "bin_means (norm_counts [balanced] [cell_B\<lparr>n_mapped := 6, n_counted := 6, median_bin_count := 3\<rparr>] 2) 2
     = [Fin (2 / 3), Fin (4 / 3)]"
  by (simp add: bin_means_def bin_samples_def norm_counts_def upt_2 balanced_def
      mean_def fv_sum_def of_unsigned_def)

lemma example_limit: "upper_limit [Fin (2 / 3), Fin (4 / 3)] = Fin 2"
proof -
  have "variance [Fin (2 / 3), Fin (4 / 3)] = Fin (1 / 9)"
    by (simp add: mean_def variance_def fv_sum_def of_unsigned_def fv_sub_def)
  then show ?thesis
    by (simp add: upper_limit_def my_mean_def my_sd_def mean_def fv_sum_def of_unsigned_def
        sqrt_ninth)
qed

lemma example_filter:
  "filter_bins [balanced] [cell_B\<lparr>n_mapped := 6, n_counted := 6, median_bin_count := 3\<rparr>]
     (length two_intervals) = ([0, 1], [])"
proof -
  have "length two_intervals = 2" by (simp add: two_intervals_def)
  then show ?thesis
    by (simp add: filter_bins_def example_means example_limit upt_2 is_good_def fv_greater_def)
qed

lemma example_totals: "good_totals balanced [0, 1] = [Fin 2, Fin 4]"
  by (simp add: good_totals_def upt_2 balanced_def of_unsigned_def)

lemma example_samples:
  "estimate_samples [balanced] [cell_B\<lparr>n_mapped := 6, n_counted := 6, median_bin_count := 3\<rparr>] [0, 1]
     ''B'' = Some \<lparr>means = [Fin 3], vars = [Fin 1], p' = Fin 3\<rparr>"
  by (simp add: estimate_samples_def estimate_p_def add_cell_def new_SampleInfo_def fit_p_def
      inner_product_def example_totals [unfolded One_nat_def] mean_def variance_def fv_sum_def of_unsigned_def fv_sub_def
      cell_B_def)

lemma example_decoding:
  "fst (snd (decoding example_env two_intervals 1
       [cell_B\<lparr>n_mapped := 6, n_counted := 6, median_bin_count := 3\<rparr>] [balanced]
       [IgnoringCell ''a.bam''])) = [map (\<lambda>c. c\<lparr>label := ''WC''\<rparr>) balanced]"
proof (rule singleton_nth)
  show "length (fst (snd (decoding example_env two_intervals 1
       [cell_B\<lparr>n_mapped := 6, n_counted := 6, median_bin_count := 3\<rparr>] [balanced]
       [IgnoringCell ''a.bam'']))) = 1"
    by (simp only: length_decoding) simp
  have "(0::nat) < length [balanced]" by simp
  from decoding_nth [OF this] show "fst (snd (decoding example_env two_intervals 1
       [cell_B\<lparr>n_mapped := 6, n_counted := 6, median_bin_count := 3\<rparr>] [balanced]
       [IgnoringCell ''a.bam''])) ! 0 = map (\<lambda>c. c\<lparr>label := ''WC''\<rparr>) balanced"
    by (simp only: example_env_def label_all_def Env.simps nth_Cons_0)
qed

lemma example_rows:
  "table_rows example_env [''a.bam'', ''b.bam''] two_intervals
     [cell_B\<lparr>n_mapped := 6, n_counted := 6, median_bin_count := 3\<rparr>]
     [map (\<lambda>c. c\<lparr>label := ''WC''\<rparr>) balanced] =
   [\<lparr>r_chrom = ''chr1'', r_start = 0, r_end = 100, r_sample = ''B'', r_cell = ''a'',
      r_c = 1, r_w = 1, r_class = ''WC''\<rparr>,
    \<lparr>r_chrom = ''chr1'', r_start = 100, r_end = 200, r_sample = ''B'', r_cell = ''a'',
      r_c = 2, r_w = 2, r_class = ''WC''\<rparr>]"
  by (simp add: table_rows_def table_row_def upt_2 balanced_def two_intervals_def example_env_def
      cell_B_def)

lemma example_main:
  "main example_env [''a.bam'', ''b.bam''] two_intervals 1 =
     \<lparr>exit_code = 0, diagnostics = [IgnoringCell ''a.bam''],
      table = Some (table_header,
        [\<lparr>r_chrom = ''chr1'', r_start = 0, r_end = 100, r_sample = ''B'', r_cell = ''a'',
           r_c = 1, r_w = 1, r_class = ''WC''\<rparr>,
         \<lparr>r_chrom = ''chr1'', r_start = 100, r_end = 200, r_sample = ''B'', r_cell = ''a'',
           r_c = 2, r_w = 2, r_class = ''WC''\<rparr>])\<rparr>"
  unfolding main_unfold [OF example_header example_counting refl refl]
  unfolding example_median example_decoding example_rows
  by (simp add: example_env_def)

text \<open>
  C5, the run on the files \<^verbatim>\<open>a.bam\<close> and \<^verbatim>\<open>b.bam\<close>, where the reader fails on
  \<^verbatim>\<open>a.bam\<close>. The one retained cell is the cell of \<^verbatim>\<open>b.bam\<close> (id 1, sample B). Line
  428 takes the name of the cell from \<^verbatim>\<open>conf.f_in[i]\<close> with the position \<open>i\<close> of the
  cell among the retained cells, so both rows of the table carry the counts and the
  sample of \<^verbatim>\<open>b.bam\<close> under the cell name \<open>a\<close>. (The cell summary, line 245, uses
  \<^verbatim>\<open>conf.f_in[cell.id]\<close>.)
\<close>

theorem cell_column_after_dropped_file:
  "fst (counting example_env [''a.bam'', ''b.bam''] two_intervals 1 [cell_A, cell_B])
     = [cell_B\<lparr>n_mapped := 6, n_counted := 6\<rparr>]
   \<and> id' (cell_B\<lparr>n_mapped := 6, n_counted := 6\<rparr>) = 1
   \<and> stem example_env ([''a.bam'', ''b.bam''] ! 1) = ''b''
   \<and> table (main example_env [''a.bam'', ''b.bam''] two_intervals 1) =
       Some (table_header,
        [\<lparr>r_chrom = ''chr1'', r_start = 0, r_end = 100, r_sample = ''B'', r_cell = ''a'',
           r_c = 1, r_w = 1, r_class = ''WC''\<rparr>,
         \<lparr>r_chrom = ''chr1'', r_start = 100, r_end = 200, r_sample = ''B'', r_cell = ''a'',
           r_c = 2, r_w = 2, r_class = ''WC''\<rparr>])"
proof -
  have 1: "fst (counting example_env [''a.bam'', ''b.bam''] two_intervals 1 [cell_A, cell_B])
     = [cell_B\<lparr>n_mapped := 6, n_counted := 6\<rparr>]"
    by (simp only: example_counting fst_conv)
  have 2: "id' (cell_B\<lparr>n_mapped := 6, n_counted := 6\<rparr>) = 1" by (simp add: cell_B_def)
  have 3: "stem example_env ([''a.bam'', ''b.bam''] ! 1) = ''b''" by (simp add: example_env_def)
  have 4: "table (main example_env [''a.bam'', ''b.bam''] two_intervals 1) =
       Some (table_header,
        [\<lparr>r_chrom = ''chr1'', r_start = 0, r_end = 100, r_sample = ''B'', r_cell = ''a'',
           r_c = 1, r_w = 1, r_class = ''WC''\<rparr>,
         \<lparr>r_chrom = ''chr1'', r_start = 100, r_end = 200, r_sample = ''B'', r_cell = ''a'',
           r_c = 2, r_w = 2, r_class = ''WC''\<rparr>])"
    by (simp only: example_main Run.simps)
  from 1 2 3 4 show ?thesis by blast
qed

subsection \<open>No test of p\<close>

lemma kind_of_not_estimation: "kind_of d \<noteq> EstimationError"
  by (cases d) simp_all

text \<open>
  C6, as the code has it. There is no test of \<open>p\<close> anywhere: no message of a run is an
  estimation error, whatever the values of \<open>p\<close>; the decode adds no message; and every
  retained cell is decoded by \<open>run_HMM\<close> with the emissions made from the \<open>p\<close> of its
  sample as it is, the result being stored as the labelled counters of the cell.
\<close>

theorem no_estimation_error_is_reported:
  assumes "good_bins = fst (filter_bins counts cells (length bins))"
    and "samples = estimate_samples counts cells good_bins"
  shows "(\<forall>d \<in> set (diagnostics (main env f_in bins n_targets)). kind_of d \<noteq> EstimationError)
       \<and> snd (snd (decoding env bins n_targets cells counts err)) = err
       \<and> length (fst (snd (decoding env bins n_targets cells counts err))) = length counts
       \<and> (\<forall>i<length counts.
             fst (snd (decoding env bins n_targets cells counts err)) ! i =
               run_HMM env
                 ((setup_hmm (length bins))\<lparr>emissions :=
                    cell_emissions (sample_p samples (sample_name (cells ! i)))
                      (median_bin_count (cells ! i))\<rparr>)
                 (counts ! i) good_bins (build_good_map bins good_bins n_targets))"
  by (simp add: kind_of_not_estimation decoding_err length_decoding decoding_nth assms)

lemma balanced_p:
  "sample_p (estimate_samples [balanced]
       [cell_B\<lparr>n_mapped := 6, n_counted := 6, median_bin_count := 3\<rparr>] [0, 1]) ''B'' = Fin 3"
  by (simp only: sample_p_def example_samples option.case SampleInfo.simps)

text \<open>
  In the run on \<^verbatim>\<open>a.bam\<close> and \<^verbatim>\<open>b.bam\<close> both bins are good and the sample B has
  \<open>p = 3\<close>, outside the interval (0,1). The only message of the run is the warning
  for \<^verbatim>\<open>a.bam\<close>, the exit code is 0 and both rows carry the label of the decoder.
\<close>

theorem no_estimation_error_counterexample:
  "fst (filter_bins [balanced] [cell_B\<lparr>n_mapped := 6, n_counted := 6, median_bin_count := 3\<rparr>]
          (length two_intervals)) = [0, 1]
   \<and> sample_p (estimate_samples [balanced]
       [cell_B\<lparr>n_mapped := 6, n_counted := 6, median_bin_count := 3\<rparr>] [0, 1]) ''B'' = Fin 3
   \<and> \<not> (fv_less (Fin 0) (Fin 3) \<and> fv_less (Fin 3) (Fin 1))
   \<and> map kind_of (diagnostics (main example_env [''a.bam'', ''b.bam''] two_intervals 1)) = [OpenError]
   \<and> exit_code (main example_env [''a.bam'', ''b.bam''] two_intervals 1) = 0
   \<and> map r_class (snd (the (table (main example_env [''a.bam'', ''b.bam''] two_intervals 1))))
       = [''WC'', ''WC'']"
proof -
  have 1: "fst (filter_bins [balanced] [cell_B\<lparr>n_mapped := 6, n_counted := 6, median_bin_count := 3\<rparr>]
          (length two_intervals)) = [0, 1]"
    by (simp only: example_filter fst_conv)
  have 3: "\<not> (fv_less (Fin 0) (Fin 3) \<and> fv_less (Fin 3) (Fin 1))" by simp
  have 4: "map kind_of (diagnostics (main example_env [''a.bam'', ''b.bam''] two_intervals 1)) = [OpenError]"
    unfolding example_main by simp
  have 5: "exit_code (main example_env [''a.bam'', ''b.bam''] two_intervals 1) = 0"
    unfolding example_main by simp
  have 6: "map r_class (snd (the (table (main example_env [''a.bam'', ''b.bam''] two_intervals 1))))
       = [''WC'', ''WC'']"
    unfolding example_main by simp
  from 1 balanced_p 3 4 5 6 show ?thesis by blast
qed

theorem no_estimation_error_is_reported_witness:
  "sample_p (estimate_samples [dispersed] [cell_D] [0, 1]) (sample_name ([cell_D] ! 0)) = Fin (5 / 16)
   \<and> fv_less (Fin 0) (Fin (5 / 16)) \<and> fv_less (Fin (5 / 16)) (Fin 1)
   \<and> snd (snd (decoding example_env two_intervals 1 [cell_D] [dispersed] [])) = []
   \<and> fst (snd (decoding example_env two_intervals 1 [cell_D] [dispersed] [])) ! 0 =
       label_all
         ((setup_hmm (length two_intervals))\<lparr>emissions :=
            cell_emissions (Fin (5 / 16)) (median_bin_count ([cell_D] ! 0))\<rparr>)
         dispersed [0, 1] [0, 2]
   \<and> EstimationError \<notin> kind_of ` set (diagnostics (main example_env [''a.bam'', ''b.bam''] two_intervals 1))"
proof -
  note h = no_estimation_error_is_reported [where counts = "[dispersed]" and cells = "[cell_D]"
      and bins = two_intervals and env = example_env and n_targets = 1 and err = "[]"
      and f_in = "[''a.bam'', ''b.bam'']", OF refl refl]
  have 2: "fv_less (Fin 0) (Fin (5 / 16)) \<and> fv_less (Fin (5 / 16)) (Fin 1)" by simp
  from h have 3: "snd (snd (decoding example_env two_intervals 1 [cell_D] [dispersed] [])) = []"
    by blast
  have r: "run_HMM example_env = label_all" by (simp add: example_env_def)
  have d: "[dispersed] ! 0 = dispersed" by simp
  from h have "\<forall>i<length [dispersed].
             fst (snd (decoding example_env two_intervals 1 [cell_D] [dispersed] [])) ! i =
               run_HMM example_env
                 ((setup_hmm (length two_intervals))\<lparr>emissions :=
                    cell_emissions
                      (sample_p (estimate_samples [dispersed] [cell_D]
                          (fst (filter_bins [dispersed] [cell_D] (length two_intervals))))
                        (sample_name ([cell_D] ! i)))
                      (median_bin_count ([cell_D] ! i))\<rparr>)
                 ([dispersed] ! i) (fst (filter_bins [dispersed] [cell_D] (length two_intervals)))
                 (build_good_map two_intervals
                    (fst (filter_bins [dispersed] [cell_D] (length two_intervals))) 1)"
    by blast
  moreover have "(0::nat) < length [dispersed]" by simp
  ultimately have "fst (snd (decoding example_env two_intervals 1 [cell_D] [dispersed] [])) ! 0 =
               run_HMM example_env
                 ((setup_hmm (length two_intervals))\<lparr>emissions :=
                    cell_emissions
                      (sample_p (estimate_samples [dispersed] [cell_D]
                          (fst (filter_bins [dispersed] [cell_D] (length two_intervals))))
                        (sample_name ([cell_D] ! 0)))
                      (median_bin_count ([cell_D] ! 0))\<rparr>)
                 ([dispersed] ! 0) (fst (filter_bins [dispersed] [cell_D] (length two_intervals)))
                 (build_good_map two_intervals
                    (fst (filter_bins [dispersed] [cell_D] (length two_intervals))) 1)"
    by blast
  then have 4: "fst (snd (decoding example_env two_intervals 1 [cell_D] [dispersed] [])) ! 0 =
       label_all
         ((setup_hmm (length two_intervals))\<lparr>emissions :=
            cell_emissions (Fin (5 / 16)) (median_bin_count ([cell_D] ! 0))\<rparr>)
         dispersed [0, 1] [0, 2]"
    unfolding dispersed_good dispersed_p two_intervals_good_map r d .
  from h have "\<forall>d \<in> set (diagnostics (main example_env [''a.bam'', ''b.bam''] two_intervals 1)).
      kind_of d \<noteq> EstimationError"
    by (rule conjunct1)
  then have 5: "EstimationError \<notin> kind_of ` set (diagnostics (main example_env [''a.bam'', ''b.bam''] two_intervals 1))"
    by auto
  from dispersed_p 2 3 4 5 show ?thesis by blast
qed

end
